theory Spec2Isabelle
  imports Main "HOL-Library.Word"
begin

unbundle bit_operations_syntax

section \<open>Common definitions (chat\_common.h)\<close>

type_synonym byte = "8 word"

definition MAX_CLIENTS :: nat where
  "MAX_CLIENTS = 50"

definition BUFFER_SIZE :: nat where
  "BUFFER_SIZE = 1024"

definition USERNAME_SIZE :: nat where
  "USERNAME_SIZE = 32"

definition MESSAGE_SIZE :: nat where
  "MESSAGE_SIZE = BUFFER_SIZE - USERNAME_SIZE - 64"

text \<open>
  The enumeration \<open>message_type_t\<close>. A frame read from the network can carry any
  32-bit value in this field, so the field is a machine word and the six enumerators are
  the constants 0 to 5.
\<close>

definition MSG_CONNECT :: "32 word" where "MSG_CONNECT = 0"
definition MSG_DISCONNECT :: "32 word" where "MSG_DISCONNECT = 1"
definition MSG_CHAT :: "32 word" where "MSG_CHAT = 2"
definition MSG_NOTIFICATION :: "32 word" where "MSG_NOTIFICATION = 3"
definition MSG_ERROR :: "32 word" where "MSG_ERROR = 4"
definition MSG_KEEPALIVE :: "32 word" where "MSG_KEEPALIVE = 5"

text \<open>
  \<open>chat_message_t\<close>. The two character arrays are byte lists; that they hold
  \<open>USERNAME_SIZE\<close> and \<open>MESSAGE_SIZE\<close> bytes is the predicate \<open>chat_message_ok\<close>.
\<close>

record chat_message =
  msg_type :: "32 word"
  msg_username :: "byte list"
  msg_content :: "byte list"
  msg_timestamp :: "64 word"
  msg_length :: "64 word"

definition chat_message_ok :: "chat_message \<Rightarrow> bool" where
  "chat_message_ok m \<longleftrightarrow>
     length (msg_username m) = USERNAME_SIZE \<and> length (msg_content m) = MESSAGE_SIZE"

subsection \<open>C strings\<close>

text \<open>
  A \<open>const char *\<close> argument is the list of bytes found at the pointer; the string it
  denotes ends before the first zero byte.
\<close>

definition c_str :: "byte list \<Rightarrow> byte list" where
  "c_str s = takeWhile (\<lambda>b. b \<noteq> 0) s"

definition strlen :: "byte list \<Rightarrow> nat" where
  "strlen s = length (c_str s)"

definition ascii :: "string \<Rightarrow> byte list" where
  "ascii s = map (\<lambda>c. of_nat (of_char c)) s"

text \<open>
  \<open>strncpy dst src n\<close>: the first \<open>n\<close> bytes of \<open>dst\<close> become the string of
  \<open>src\<close>, cut at \<open>n\<close> bytes and filled up with zero bytes.
\<close>

definition strncpy :: "byte list \<Rightarrow> byte list \<Rightarrow> nat \<Rightarrow> byte list" where
  "strncpy dst src n =
     (let s = take n (c_str src)
      in s @ replicate (n - length s) 0 @ drop n dst)"

text \<open>
  \<open>snprintf buf n "...%s..."\<close> with one string argument: the text before the
  argument, the argument's string and the text after it, cut at \<open>n - 1\<close> bytes and
  terminated.
\<close>

definition snprintf :: "nat \<Rightarrow> byte list \<Rightarrow> byte list \<Rightarrow> byte list \<Rightarrow> byte list" where
  "snprintf n pre arg post = take (n - 1) (pre @ c_str arg @ post) @ [0]"

subsection \<open>The object representation of a message\<close>

text \<open>
  \<open>serialize_message\<close> and \<open>deserialize_message\<close> copy the structure byte by byte.
  The layout is that of an LP64 little-endian target: the 4-byte type at offset 0, the
  user name at 4, the content at 36, four bytes of padding at 964, the 8-byte timestamp
  at 968 and the 8-byte length at 976. The padding is written as zero, which is what
  \<open>init_message\<close> leaves there (it clears the whole structure first).
\<close>

fun le_bytes :: "nat \<Rightarrow> 'a::len word \<Rightarrow> byte list" where
  "le_bytes 0 w = []"
| "le_bytes (Suc n) w = ucast w # le_bytes n (drop_bit 8 w)"

fun le_word :: "byte list \<Rightarrow> 'a::len word" where
  "le_word [] = 0"
| "le_word (b # bs) = ucast b OR push_bit 8 (le_word bs)"

definition sizeof_chat_message :: nat where
  "sizeof_chat_message = 4 + USERNAME_SIZE + MESSAGE_SIZE + 4 + 8 + 8"

definition struct_bytes :: "chat_message \<Rightarrow> byte list" where
  "struct_bytes m =
     le_bytes 4 (msg_type m) @ msg_username m @ msg_content m @ replicate 4 0
       @ le_bytes 8 (msg_timestamp m) @ le_bytes 8 (msg_length m)"

definition struct_of_bytes :: "byte list \<Rightarrow> chat_message" where
  "struct_of_bytes bs =
     \<lparr>msg_type = le_word (take 4 bs),
      msg_username = take USERNAME_SIZE (drop 4 bs),
      msg_content = take MESSAGE_SIZE (drop (4 + USERNAME_SIZE) bs),
      msg_timestamp = le_word (take 8 (drop (4 + USERNAME_SIZE + MESSAGE_SIZE + 4) bs)),
      msg_length = le_word (take 8 (drop (4 + USERNAME_SIZE + MESSAGE_SIZE + 4 + 8) bs))\<rparr>"

section \<open>Common functions (chat\_common.c)\<close>

text \<open>
  \<open>init_message\<close>: the structure is cleared, then the type, the current time
  (the argument \<open>now\<close> stands for \<open>time(NULL)\<close>), the user name and the content are set;
  a null pointer for either string is \<open>None\<close>.
\<close>

definition init_message ::
  "32 word \<Rightarrow> byte list option \<Rightarrow> byte list option \<Rightarrow> 64 word \<Rightarrow> chat_message" where
  "init_message type username content now =
     (let u0 = replicate USERNAME_SIZE 0;
          c0 = replicate MESSAGE_SIZE 0;
          u = (case username of None \<Rightarrow> u0
               | Some s \<Rightarrow> (strncpy u0 s (USERNAME_SIZE - 1))[USERNAME_SIZE - 1 := 0]);
          c = (case content of None \<Rightarrow> c0
               | Some s \<Rightarrow> (strncpy c0 s (MESSAGE_SIZE - 1))[MESSAGE_SIZE - 1 := 0])
      in \<lparr>msg_type = type, msg_username = u, msg_content = c, msg_timestamp = now,
          msg_length = of_nat sizeof_chat_message\<rparr>)"

text \<open>
  \<open>serialize_message msg buffer\<close>: \<open>buffer\<close> is the output array, its length the
  argument \<open>buffer_size\<close>. The result is the returned count (\<open>-1\<close> on failure) and
  the array afterwards.
\<close>

definition serialize_message :: "chat_message \<Rightarrow> byte list \<Rightarrow> int \<times> byte list" where
  "serialize_message msg buffer =
     (if length buffer < sizeof_chat_message then (- 1, buffer)
      else (int sizeof_chat_message, struct_bytes msg @ drop sizeof_chat_message buffer))"

text \<open>
  \<open>deserialize_message buffer\<close>: \<open>buffer\<close> holds the \<open>buffer_size\<close> bytes received.
  \<open>None\<close> is the return value \<open>-1\<close>; \<open>Some msg\<close> is the return value 0 with the
  message written to the output structure.
\<close>

definition deserialize_message :: "byte list \<Rightarrow> chat_message option" where
  "deserialize_message buffer =
     (if length buffer < sizeof_chat_message then None
      else
        (let msg = struct_of_bytes buffer
         in if msg_type msg < MSG_CONNECT \<or> msg_type msg > MSG_KEEPALIVE then None
            else Some (msg\<lparr>msg_username := (msg_username msg)[USERNAME_SIZE - 1 := 0],
                           msg_content := (msg_content msg)[MESSAGE_SIZE - 1 := 0]\<rparr>)))"

text \<open>\<open>validate_username\<close>, with its loop over the characters as a recursion.\<close>

definition username_char_ok :: "byte \<Rightarrow> bool" where
  "username_char_ok c \<longleftrightarrow>
     (c \<ge> 97 \<and> c \<le> 122) \<or> (c \<ge> 65 \<and> c \<le> 90) \<or> (c \<ge> 48 \<and> c \<le> 57) \<or> c = 95"

fun validate_chars :: "byte list \<Rightarrow> int" where
  "validate_chars [] = 1"
| "validate_chars (c # cs) = (if \<not> username_char_ok c then 0 else validate_chars cs)"

definition validate_username :: "byte list \<Rightarrow> int" where
  "validate_username username =
     (if strlen username = 0 then 0
      else
        (let len = strlen username
         in if len \<ge> USERNAME_SIZE then 0
            else validate_chars (take len username)))"

section \<open>Server state (chat\_common.h)\<close>

text \<open>
  \<open>client_info_t\<close> and \<open>server_context_t\<close>. The flags \<open>active\<close>,
  \<open>disconnect_notified\<close> and \<open>running\<close> are C integers that the program only sets
  to 0 or 1 and only tests for being non-zero; they are booleans here. A socket address is
  the pair of its IPv4 address and port. The mutex has no counterpart: every function
  below runs from its call to its return without another thread in between.
\<close>

type_synonym sockaddr_in = "32 word \<times> 16 word"

record client_info =
  socket_fd :: int
  username :: "byte list"
  address :: sockaddr_in
  connect_time :: "64 word"
  thread_id :: nat
  active :: bool
  disconnect_notified :: bool

record server_context =
  clients :: "client_info list"
  client_count :: int
  server_socket :: int
  running :: bool

subsection \<open>The world outside the process\<close>

text \<open>
  What the server does to its sockets is recorded: every call of \<open>send\<close> with the
  descriptor, the bytes handed over and the value \<open>send\<close> returned, and every
  descriptor given to \<open>close\<close>, oldest first. What \<open>send\<close> returns is not
  decided by the program; the parameter \<open>net\<close> gives it, for the number of calls of
  \<open>send\<close> made so far and the descriptor.
\<close>

record send_event =
  ev_socket :: int
  ev_data :: "byte list"
  ev_result :: int

record world =
  sent :: "send_event list"
  closed :: "int list"

type_synonym network = "nat \<Rightarrow> int \<Rightarrow> int"

definition send :: "network \<Rightarrow> world \<Rightarrow> int \<Rightarrow> byte list \<Rightarrow> int \<times> world" where
  "send net w fd buf =
     (let r = net (length (sent w)) fd
      in (r, w\<lparr>sent := sent w @ [\<lparr>ev_socket = fd, ev_data = buf, ev_result = r\<rparr>]\<rparr>))"

text \<open>The macro \<open>SAFE_CLOSE\<close>: the descriptor afterwards is the second component.\<close>

definition SAFE_CLOSE :: "world \<Rightarrow> int \<Rightarrow> world \<times> int" where
  "SAFE_CLOSE w fd = (if fd \<ge> 0 then (w\<lparr>closed := closed w @ [fd]\<rparr>, - 1) else (w, fd))"

text \<open>
  What \<open>recv\<close> delivers to a client thread is its input: a list of results, one for
  each call. A call beyond the end of the list finds the connection closed.
\<close>

datatype recv_result = Received "byte list" | PeerClosed | RecvError

fun recv_count :: "recv_result \<Rightarrow> int" where
  "recv_count (Received d) = int (length (take BUFFER_SIZE d))"
| "recv_count PeerClosed = 0"
| "recv_count RecvError = - 1"

fun recv_buffer :: "recv_result \<Rightarrow> byte list" where
  "recv_buffer (Received d) = take BUFFER_SIZE d"
| "recv_buffer PeerClosed = []"
| "recv_buffer RecvError = []"

section \<open>The server (chat\_server.c)\<close>

definition init_server_context :: server_context where
  "init_server_context =
     \<lparr>clients = replicate MAX_CLIENTS
        \<lparr>socket_fd = - 1, username = replicate USERNAME_SIZE 0, address = (0, 0),
         connect_time = 0, thread_id = 0, active = False, disconnect_notified = False\<rparr>,
      client_count = 0, server_socket = - 1, running = True\<rparr>"

subsection \<open>The registry\<close>

text \<open>The search for a free slot in \<open>add_client\<close>: the first inactive index, or \<open>-1\<close>.\<close>

fun find_free_slot :: "client_info list \<Rightarrow> nat list \<Rightarrow> int" where
  "find_free_slot cs [] = - 1"
| "find_free_slot cs (i # is) = (if \<not> active (cs ! i) then int i else find_free_slot cs is)"

definition add_client ::
  "server_context \<Rightarrow> int \<Rightarrow> sockaddr_in \<Rightarrow> byte list \<Rightarrow> 64 word \<Rightarrow> int \<times> server_context" where
  "add_client ctx client_socket client_addr uname now =
     (if client_count ctx \<ge> int MAX_CLIENTS then (- 1, ctx)
      else
        (let client_index = find_free_slot (clients ctx) [0..<MAX_CLIENTS]
         in if client_index = - 1 then (- 1, ctx)
            else
              (let i = nat client_index;
                   client = clients ctx ! i;
                   client' = client
                     \<lparr>socket_fd := client_socket,
                      address := client_addr,
                      connect_time := now,
                      active := True,
                      disconnect_notified := False,
                      username :=
                        (strncpy (username client) uname (USERNAME_SIZE - 1))
                          [USERNAME_SIZE - 1 := 0]\<rparr>
               in (client_index,
                   ctx\<lparr>clients := (clients ctx)[i := client'],
                       client_count := client_count ctx + 1\<rparr>))))"

text \<open>
  The loop of \<open>broadcast_message\<close> over the slots. The state is the count of
  successful sends, the registry and the world.
\<close>

fun broadcast_loop ::
  "network \<Rightarrow> byte list \<Rightarrow> int \<Rightarrow> nat list \<Rightarrow> int \<times> server_context \<times> world
     \<Rightarrow> int \<times> server_context \<times> world" where
  "broadcast_loop net buf exclude_socket [] st = st"
| "broadcast_loop net buf exclude_socket (i # is) (sent_count, ctx, w) =
     (if active (clients ctx ! i) \<and> socket_fd (clients ctx ! i) \<noteq> exclude_socket then
        (let (r, w') = send net w (socket_fd (clients ctx ! i)) buf
         in if r > 0 then broadcast_loop net buf exclude_socket is (sent_count + 1, ctx, w')
            else broadcast_loop net buf exclude_socket is
                   (sent_count,
                    ctx\<lparr>clients := (clients ctx)[i := (clients ctx ! i)\<lparr>active := False\<rparr>]\<rparr>,
                    w'))
      else broadcast_loop net buf exclude_socket is (sent_count, ctx, w))"

definition broadcast_message ::
  "network \<Rightarrow> server_context \<Rightarrow> world \<Rightarrow> chat_message \<Rightarrow> int
     \<Rightarrow> int \<times> server_context \<times> world" where
  "broadcast_message net ctx w msg exclude_socket =
     (let (msg_size, buffer) = serialize_message msg (replicate BUFFER_SIZE 0)
      in if msg_size < 0 then (0, ctx, w)
         else broadcast_loop net (take (nat msg_size) buffer) exclude_socket
                [0..<MAX_CLIENTS] (0, ctx, w))"

definition disconnect_text :: "byte list \<Rightarrow> byte list" where
  "disconnect_text uname =
     snprintf MESSAGE_SIZE (ascii ''[Usuario '') uname
       (ascii '' se desconect'' @ [0xC3, 0xB3] @ ascii '']'')"

definition connect_text :: "byte list \<Rightarrow> byte list" where
  "connect_text uname =
     snprintf MESSAGE_SIZE (ascii ''[Usuario '') uname
       (ascii '' se conect'' @ [0xC3, 0xB3] @ ascii '']'')"

text \<open>
  \<open>remove_client\<close>. The loop looks for the first active slot with the socket; the
  body for that slot is \<open>remove_slot\<close>.
\<close>

definition remove_slot ::
  "network \<Rightarrow> 64 word \<Rightarrow> server_context \<Rightarrow> world \<Rightarrow> int \<Rightarrow> nat
     \<Rightarrow> int \<times> server_context \<times> world" where
  "remove_slot net now ctx w client_socket i =
     (let (ctx1, w1) =
            (if \<not> disconnect_notified (clients ctx ! i) then
               (let disconnect_notification =
                      init_message MSG_NOTIFICATION (Some (ascii ''Sistema''))
                        (Some (disconnect_text (username (clients ctx ! i)))) now;
                    ctx' = ctx\<lparr>clients :=
                             (clients ctx)[i := (clients ctx ! i)\<lparr>disconnect_notified := True\<rparr>]\<rparr>;
                    (n, ctx'', w') =
                      broadcast_message net ctx' w disconnect_notification client_socket
                in (ctx'', w'))
             else (ctx, w));
          (w2, fd) = SAFE_CLOSE w1 (socket_fd (clients ctx1 ! i))
      in (0,
          ctx1\<lparr>clients := (clients ctx1)[i := (clients ctx1 ! i)\<lparr>active := False, socket_fd := fd\<rparr>],
               client_count := client_count ctx1 - 1\<rparr>,
          w2))"

fun remove_loop ::
  "network \<Rightarrow> 64 word \<Rightarrow> server_context \<Rightarrow> world \<Rightarrow> int \<Rightarrow> nat list
     \<Rightarrow> int \<times> server_context \<times> world" where
  "remove_loop net now ctx w client_socket [] = (- 1, ctx, w)"
| "remove_loop net now ctx w client_socket (i # is) =
     (if active (clients ctx ! i) \<and> socket_fd (clients ctx ! i) = client_socket
      then remove_slot net now ctx w client_socket i
      else remove_loop net now ctx w client_socket is)"

definition remove_client ::
  "network \<Rightarrow> 64 word \<Rightarrow> server_context \<Rightarrow> world \<Rightarrow> int \<Rightarrow> int \<times> server_context \<times> world" where
  "remove_client net now ctx w client_socket =
     (if \<not> running ctx then (0, ctx, w)
      else remove_loop net now ctx w client_socket [0..<MAX_CLIENTS])"

text \<open>\<open>find_client\<close>: the index of the slot the returned pointer points to.\<close>

fun find_client_loop :: "client_info list \<Rightarrow> int \<Rightarrow> nat list \<Rightarrow> nat option" where
  "find_client_loop cs client_socket [] = None"
| "find_client_loop cs client_socket (i # is) =
     (if active (cs ! i) \<and> socket_fd (cs ! i) = client_socket then Some i
      else find_client_loop cs client_socket is)"

definition find_client :: "server_context \<Rightarrow> int \<Rightarrow> nat option" where
  "find_client ctx client_socket = find_client_loop (clients ctx) client_socket [0..<MAX_CLIENTS]"

definition send_message_to_client ::
  "network \<Rightarrow> world \<Rightarrow> int \<Rightarrow> chat_message \<Rightarrow> int \<times> world" where
  "send_message_to_client net w client_socket msg =
     (if client_socket < 0 then (- 1, w)
      else
        (let (msg_size, buffer) = serialize_message msg (replicate BUFFER_SIZE 0)
         in if msg_size < 0 then (- 1, w)
            else
              (let (r, w') = send net w client_socket (take (nat msg_size) buffer)
               in if r \<noteq> msg_size then (- 1, w') else (0, w'))))"

subsection \<open>Notifications\<close>

definition notify_user_connected ::
  "network \<Rightarrow> 64 word \<Rightarrow> server_context \<Rightarrow> world \<Rightarrow> byte list \<Rightarrow> int
     \<Rightarrow> server_context \<times> world" where
  "notify_user_connected net now ctx w uname exclude_socket =
     (let notify_msg =
            init_message MSG_NOTIFICATION (Some (ascii ''Sistema'')) (Some (connect_text uname)) now;
          (n, ctx', w') = broadcast_message net ctx w notify_msg exclude_socket
      in (ctx', w'))"

definition notify_user_disconnected ::
  "network \<Rightarrow> 64 word \<Rightarrow> server_context \<Rightarrow> world \<Rightarrow> byte list \<Rightarrow> server_context \<times> world" where
  "notify_user_disconnected net now ctx w uname =
     (let notify_msg =
            init_message MSG_NOTIFICATION (Some (ascii ''Sistema''))
              (Some (disconnect_text uname)) now;
          (n, ctx', w') = broadcast_message net ctx w notify_msg (- 1)
      in (ctx', w'))"

subsection \<open>The client thread\<close>

text \<open>
  \<open>process_client_message\<close>. The pointer \<open>client\<close> points into the registry, so it
  is the index \<open>i\<close> of its slot, and what the function writes through it is written to
  the registry.
\<close>

definition process_client_message ::
  "network \<Rightarrow> 64 word \<Rightarrow> server_context \<Rightarrow> world \<Rightarrow> nat \<Rightarrow> chat_message
     \<Rightarrow> int \<times> server_context \<times> world" where
  "process_client_message net now ctx w i msg =
     (if msg_type msg = MSG_CHAT then
        (let broadcast_msg =
               init_message MSG_CHAT (Some (username (clients ctx ! i)))
                 (Some (msg_content msg)) now;
             (n, ctx', w') = broadcast_message net ctx w broadcast_msg (- 1)
         in (0, ctx', w'))
      else if msg_type msg = MSG_DISCONNECT then
        (let ctx1 = ctx\<lparr>clients :=
                      (clients ctx)[i := (clients ctx ! i)\<lparr>disconnect_notified := True\<rparr>]\<rparr>;
             disconnect_notification =
               init_message MSG_NOTIFICATION (Some (ascii ''Sistema''))
                 (Some (disconnect_text (username (clients ctx1 ! i)))) now;
             (n, ctx2, w') =
               broadcast_message net ctx1 w disconnect_notification (socket_fd (clients ctx1 ! i))
         in (- 1,
             ctx2\<lparr>clients := (clients ctx2)[i := (clients ctx2 ! i)\<lparr>active := False\<rparr>]\<rparr>,
             w'))
      else if msg_type msg = MSG_KEEPALIVE then
        (let keepalive_response =
               init_message MSG_KEEPALIVE (Some (ascii ''Sistema'')) (Some []) now;
             (r, w') = send_message_to_client net w (socket_fd (clients ctx ! i)) keepalive_response
         in (0, ctx, w'))
      else (0, ctx, w))"

definition handle_client_disconnect ::
  "network \<Rightarrow> 64 word \<Rightarrow> server_context \<Rightarrow> world \<Rightarrow> nat \<Rightarrow> server_context \<times> world" where
  "handle_client_disconnect net now ctx w i =
     (let uname = (strncpy (replicate USERNAME_SIZE 0) (username (clients ctx ! i))
                     (USERNAME_SIZE - 1))[USERNAME_SIZE - 1 := 0];
          (r, ctx1, w1) = remove_client net now ctx w (socket_fd (clients ctx ! i))
      in notify_user_disconnected net now ctx1 w1 uname)"

text \<open>
  The receive loop of \<open>handle_client_thread\<close>, one step for each result of \<open>recv\<close>.
\<close>

fun client_loop ::
  "network \<Rightarrow> 64 word \<Rightarrow> nat \<Rightarrow> recv_result list \<Rightarrow> server_context \<times> world
     \<Rightarrow> server_context \<times> world" where
  "client_loop net now i [] (ctx, w) = (ctx, w)"
| "client_loop net now i (r # rs) (ctx, w) =
     (if running ctx \<and> active (clients ctx ! i) then
        (if recv_count r \<le> 0 then (ctx, w)
         else
           (case deserialize_message (recv_buffer r) of
              Some msg \<Rightarrow>
                (let (ret, ctx', w') = process_client_message net now ctx w i msg
                 in if ret < 0 then (ctx', w') else client_loop net now i rs (ctx', w'))
            | None \<Rightarrow> client_loop net now i rs (ctx, w)))
      else (ctx, w))"

text \<open>
  \<open>handle_client_thread\<close> for the connection \<open>client_socket\<close> from
  \<open>client_addr\<close>; \<open>tid\<close> is what \<open>pthread_self\<close> returns and \<open>script\<close> is what
  \<open>recv\<close> delivers. The label \<open>cleanup\<close> with no registered client is
  \<open>cleanup_unregistered\<close>.
\<close>

definition cleanup_unregistered :: "server_context \<Rightarrow> world \<Rightarrow> int \<Rightarrow> server_context \<times> world" where
  "cleanup_unregistered ctx w client_socket = (ctx, fst (SAFE_CLOSE w client_socket))"

definition handle_client_thread ::
  "network \<Rightarrow> 64 word \<Rightarrow> nat \<Rightarrow> server_context \<Rightarrow> world \<Rightarrow> int \<Rightarrow> sockaddr_in
     \<Rightarrow> recv_result list \<Rightarrow> server_context \<times> world" where
  "handle_client_thread net now tid ctx w client_socket client_addr script =
     (let first = (case script of [] \<Rightarrow> PeerClosed | r # rs \<Rightarrow> r);
          rest = tl script
      in if recv_count first \<le> 0 then cleanup_unregistered ctx w client_socket
         else
           (case deserialize_message (recv_buffer first) of
              None \<Rightarrow> cleanup_unregistered ctx w client_socket
            | Some msg \<Rightarrow>
                if msg_type msg \<noteq> MSG_CONNECT then cleanup_unregistered ctx w client_socket
                else if validate_username (msg_username msg) = 0 then
                  (let error_msg =
                         init_message MSG_ERROR (Some (ascii ''Sistema''))
                           (Some (ascii ''Nombre de usuario inv'' @ [0xC3, 0xA1] @ ascii ''lido''))
                           now;
                       (r, w1) = send_message_to_client net w client_socket error_msg
                   in cleanup_unregistered ctx w1 client_socket)
                else
                  (let (client_index, ctx1) =
                         add_client ctx client_socket client_addr (msg_username msg) now
                   in if client_index < 0 then
                        (let error_msg =
                               init_message MSG_ERROR (Some (ascii ''Sistema''))
                                 (Some (ascii ''Servidor lleno. Intente m'' @ [0xC3, 0xA1]
                                          @ ascii ''s tarde.''))
                                 now;
                             (r, w1) = send_message_to_client net w client_socket error_msg
                         in cleanup_unregistered ctx1 w1 client_socket)
                      else
                        (case find_client ctx1 client_socket of
                           None \<Rightarrow> cleanup_unregistered ctx1 w client_socket
                         | Some i \<Rightarrow>
                             (let ctx2 = ctx1\<lparr>clients :=
                                           (clients ctx1)[i := (clients ctx1 ! i)\<lparr>thread_id := tid\<rparr>]\<rparr>;
                                  welcome_msg =
                                    init_message MSG_NOTIFICATION (Some (ascii ''Sistema''))
                                      (Some (ascii ''Conectado al chat. '' @ [0xC2, 0xA1]
                                               @ ascii ''Bienvenido!''))
                                      now;
                                  (r, w1) = send_message_to_client net w client_socket welcome_msg;
                                  (ctx3, w2) =
                                    notify_user_connected net now ctx2 w1 (msg_username msg)
                                      client_socket;
                                  (ctx4, w3) = client_loop net now i rest (ctx3, w2)
                              in handle_client_disconnect net now ctx4 w3 i)))))"

section \<open>Notions used to state the properties\<close>

text \<open>
  The registry is well formed when it has its \<open>MAX_CLIENTS\<close> slots; the number of
  active sessions is the number of slots whose flag \<open>active\<close> is set.
\<close>

definition server_context_ok :: "server_context \<Rightarrow> bool" where
  "server_context_ok ctx \<longleftrightarrow> length (clients ctx) = MAX_CLIENTS"

definition active_count :: "server_context \<Rightarrow> int" where
  "active_count ctx = int (length (filter active (clients ctx)))"

text \<open>
  \<open>send_results net k fds\<close> is what \<open>send\<close> returns for sends to the descriptors
  \<open>fds\<close>, one after the other, when \<open>k\<close> sends were made before.
  \<open>broadcast_target\<close> is the test the broadcast makes of a slot, and
  \<open>broadcast_targets\<close> lists the slots that pass it. \<open>deactivate\<close> clears the flag
  \<open>active\<close> of every listed slot whose send did not succeed.
\<close>

fun send_results :: "network \<Rightarrow> nat \<Rightarrow> int list \<Rightarrow> int list" where
  "send_results net k [] = []"
| "send_results net k (fd # fds) = net k fd # send_results net (Suc k) fds"

definition broadcast_target :: "client_info list \<Rightarrow> int \<Rightarrow> nat \<Rightarrow> bool" where
  "broadcast_target cs exclude_socket i \<longleftrightarrow>
     active (cs ! i) \<and> socket_fd (cs ! i) \<noteq> exclude_socket"

definition broadcast_targets :: "server_context \<Rightarrow> int \<Rightarrow> nat list" where
  "broadcast_targets ctx exclude_socket =
     filter (broadcast_target (clients ctx) exclude_socket) [0..<MAX_CLIENTS]"

text \<open>The calls of \<open>send\<close> made between the world \<open>w\<close> and the later world \<open>w'\<close>.\<close>

definition new_events :: "world \<Rightarrow> world \<Rightarrow> send_event list" where
  "new_events w w' = drop (length (sent w)) (sent w')"

text \<open>
  The slots to which \<open>remove_client\<close> sends the disconnect notification when it removes
  the session of slot \<open>i\<close> with socket \<open>s\<close>: none when the flag
  \<open>disconnect_notified\<close> of the slot is set, the targets of the broadcast otherwise.
\<close>

definition notice_targets :: "server_context \<Rightarrow> nat \<Rightarrow> int \<Rightarrow> nat list" where
  "notice_targets ctx i s =
     (if disconnect_notified (clients ctx ! i) then [] else broadcast_targets ctx s)"

fun deactivate :: "(nat \<times> int) list \<Rightarrow> client_info list \<Rightarrow> client_info list" where
  "deactivate [] cs = cs"
| "deactivate ((i, r) # irs) cs =
     deactivate irs (if r > 0 then cs else cs[i := (cs ! i)\<lparr>active := False\<rparr>])"

subsection \<open>Concrete registries and networks\<close>

text \<open>
  The states and environments at which the theorems are evaluated: the slot as
  \<open>init_server_context\<close> leaves it, the world before any call, a network on which
  every \<open>send\<close> transmits the whole frame, one on which every \<open>send\<close> to the
  descriptor \<open>bad\<close> fails, and one on which every \<open>send\<close> fails; the registry after
  alice has connected on descriptor 4, after bob has connected as well on descriptor 5,
  and the registry with all its slots taken by the descriptors 4 to 53.
\<close>

definition free_slot :: client_info where
  "free_slot =
     \<lparr>socket_fd = - 1, username = replicate USERNAME_SIZE 0, address = (0, 0),
      connect_time = 0, thread_id = 0, active = False, disconnect_notified = False\<rparr>"

definition world0 :: world where
  "world0 = \<lparr>sent = [], closed = []\<rparr>"

definition net_ok :: network where
  "net_ok k fd = int sizeof_chat_message"

definition net_down :: "int \<Rightarrow> network" where
  "net_down bad k fd = (if fd = bad then - 1 else int sizeof_chat_message)"

definition net_dead :: network where
  "net_dead k fd = - 1"

definition alice_slot :: client_info where
  "alice_slot = free_slot
     \<lparr>socket_fd := 4, address := (0, 0), connect_time := 0, active := True,
      disconnect_notified := False,
      username := (strncpy (username free_slot) (ascii ''alice'') (USERNAME_SIZE - 1))
                    [USERNAME_SIZE - 1 := 0]\<rparr>"

definition bob_slot :: client_info where
  "bob_slot = free_slot
     \<lparr>socket_fd := 5, address := (0, 0), connect_time := 0, active := True,
      disconnect_notified := False,
      username := (strncpy (username free_slot) (ascii ''bob'') (USERNAME_SIZE - 1))
                    [USERNAME_SIZE - 1 := 0]\<rparr>"

definition registry_alice :: server_context where
  "registry_alice = snd (add_client init_server_context 4 (0, 0) (ascii ''alice'') 0)"

definition registry_pair :: server_context where
  "registry_pair = snd (add_client registry_alice 5 (0, 0) (ascii ''bob'') 0)"

definition user_slot :: "nat \<Rightarrow> client_info" where
  "user_slot k =
     \<lparr>socket_fd = int k + 4,
      username = (strncpy (replicate USERNAME_SIZE 0) (ascii ''user'') (USERNAME_SIZE - 1))
                   [USERNAME_SIZE - 1 := 0],
      address = (0, 0), connect_time = 0, thread_id = 0, active = True,
      disconnect_notified = False\<rparr>"

definition registry_full :: server_context where
  "registry_full =
     \<lparr>clients = map user_slot [0..<MAX_CLIENTS], client_count = int MAX_CLIENTS,
      server_socket = 3, running = True\<rparr>"

text \<open>
  What bob's client sends in a session that it ends itself: the CONNECT frame and the
  DISCONNECT frame, both built by \<open>init_message\<close> as the client does; and the frame
  that tells the other clients that bob has left.
\<close>

definition bob_session :: "recv_result list" where
  "bob_session =
     [Received (struct_bytes (init_message MSG_CONNECT (Some (ascii ''bob'')) (Some []) 0)),
      Received (struct_bytes (init_message MSG_DISCONNECT (Some (ascii ''bob'')) (Some []) 0))]"

definition disconnect_notice :: "byte list" where
  "disconnect_notice =
     struct_bytes (init_message MSG_NOTIFICATION (Some (ascii ''Sistema''))
                     (Some (disconnect_text (ascii ''bob''))) 0)"

text \<open>
  The registry once bob's thread has stored its identifier 7 in his slot, and the registry
  his thread leaves behind.
\<close>

definition bob_registered :: server_context where
  "bob_registered =
     \<lparr>clients = alice_slot # bob_slot\<lparr>thread_id := 7\<rparr> # replicate 48 free_slot,
      client_count = 2, server_socket = - 1, running = True\<rparr>"

definition bob_gone :: server_context where
  "bob_gone =
     \<lparr>clients = alice_slot
        # bob_slot\<lparr>thread_id := 7, disconnect_notified := True, active := False\<rparr>
        # replicate 48 free_slot,
      client_count = 2, server_socket = - 1, running = True\<rparr>"


definition long_name :: "byte list" where
  "long_name = replicate (USERNAME_SIZE - 1) 97"

definition long_slot :: client_info where
  "long_slot = free_slot
     \<lparr>socket_fd := 5, address := (0, 0), connect_time := 0, active := True,
      disconnect_notified := False,
      username := (strncpy (username free_slot) long_name (USERNAME_SIZE - 1))
                    [USERNAME_SIZE - 1 := 0]\<rparr>"





section \<open>Properties of the wire format\<close>

lemma length_le_bytes [simp]: "length (le_bytes n w) = n"
  by (induction n arbitrary: w) auto

lemma bit_le_word_le_bytes:
  "bit (le_word (le_bytes n w) :: 'a::len word) k \<longleftrightarrow> k < 8 * n \<and> bit (w :: 'a word) k"
proof (induction n arbitrary: w k)
  case 0
  then show ?case by simp
next
  case (Suc n)
  show ?case
    by (auto simp: bit_simps Suc dest: bit_imp_le_length)
qed

lemma le_word_le_bytes:
  "LENGTH('a::len) \<le> 8 * n \<Longrightarrow> le_word (le_bytes n w) = (w :: 'a word)"
  by (rule bit_word_eqI) (simp add: bit_le_word_le_bytes)

lemma sizeof_chat_message_eq: "sizeof_chat_message = 984"
  by (simp add: sizeof_chat_message_def USERNAME_SIZE_def MESSAGE_SIZE_def BUFFER_SIZE_def)

lemma word32_le_5: "(t :: 32 word) \<le> 5 \<longleftrightarrow> t \<in> {0, 1, 2, 3, 4, 5}"
proof
  assume "t \<le> 5"
  then have "unat t \<le> 5" by (simp add: word_le_nat_alt)
  then have "unat t = 0 \<or> unat t = 1 \<or> unat t = 2 \<or> unat t = 3 \<or> unat t = 4 \<or> unat t = 5"
    by arith
  moreover have "unat t = n \<Longrightarrow> t = of_nat n" for n
    using of_nat_unat [of t, where 'a = "32 word"] by simp
  ultimately have "t = 0 \<or> t = 1 \<or> t = 2 \<or> t = 3 \<or> t = 4 \<or> t = 5"
    by fastforce
  then show "t \<in> {0, 1, 2, 3, 4, 5}" by blast
next
  assume "t \<in> {0, 1, 2, 3, 4, 5}"
  then show "t \<le> 5" by auto
qed

lemma message_type_range:
  "\<not> (t < MSG_CONNECT \<or> t > MSG_KEEPALIVE) \<longleftrightarrow>
     t \<in> {MSG_CONNECT, MSG_DISCONNECT, MSG_CHAT, MSG_NOTIFICATION, MSG_ERROR, MSG_KEEPALIVE}"
  using word32_le_5 [of t]
  by (simp add: MSG_CONNECT_def MSG_DISCONNECT_def MSG_CHAT_def MSG_NOTIFICATION_def
      MSG_ERROR_def MSG_KEEPALIVE_def not_less)

lemma strlen_terminated:
  assumes "i < length s" and "s ! i = 0"
  shows "strlen s \<le> i"
proof -
  have "length (takeWhile (\<lambda>b. b \<noteq> 0) s) \<le> i"
  proof (rule ccontr)
    assume "\<not> length (takeWhile (\<lambda>b. b \<noteq> 0) s) \<le> i"
    then have "i < length (takeWhile (\<lambda>b. b \<noteq> 0) s)" by simp
    then have "takeWhile (\<lambda>b. b \<noteq> 0) s ! i \<in> set (takeWhile (\<lambda>b. b \<noteq> 0) s)"
      by (rule nth_mem)
    then have "takeWhile (\<lambda>b. b \<noteq> 0) s ! i \<noteq> 0"
      by (auto dest: set_takeWhileD)
    moreover have "takeWhile (\<lambda>b. b \<noteq> 0) s ! i = s ! i"
      using \<open>i < length (takeWhile (\<lambda>b. b \<noteq> 0) s)\<close> by (rule takeWhile_nth)
    ultimately show False using assms(2) by simp
  qed
  then show ?thesis by (simp add: strlen_def c_str_def)
qed

lemma deserialize_message_short:
  "length buffer < sizeof_chat_message \<Longrightarrow> deserialize_message buffer = None"
  by (simp add: deserialize_message_def)

lemma deserialize_message_bad_type:
  "msg_type (struct_of_bytes buffer) \<notin>
     {MSG_CONNECT, MSG_DISCONNECT, MSG_CHAT, MSG_NOTIFICATION, MSG_ERROR, MSG_KEEPALIVE}
   \<Longrightarrow> deserialize_message buffer = None"
  using message_type_range [of "msg_type (struct_of_bytes buffer)"]
  by (auto simp: deserialize_message_def Let_def)

lemma deserialize_message_Some:
  assumes "deserialize_message buffer = Some m"
  shows "sizeof_chat_message \<le> length buffer"
    and "m = (struct_of_bytes buffer)
           \<lparr>msg_username := (msg_username (struct_of_bytes buffer))[USERNAME_SIZE - 1 := 0],
            msg_content := (msg_content (struct_of_bytes buffer))[MESSAGE_SIZE - 1 := 0]\<rparr>"
    and "msg_type m \<in>
           {MSG_CONNECT, MSG_DISCONNECT, MSG_CHAT, MSG_NOTIFICATION, MSG_ERROR, MSG_KEEPALIVE}"
  using assms message_type_range [of "msg_type (struct_of_bytes buffer)"]
  by (auto simp: deserialize_message_def Let_def split: if_splits)

lemma struct_of_bytes_lengths:
  assumes "sizeof_chat_message \<le> length buffer"
  shows "length (msg_username (struct_of_bytes buffer)) = USERNAME_SIZE"
    and "length (msg_content (struct_of_bytes buffer)) = MESSAGE_SIZE"
  using assms by (simp_all add: struct_of_bytes_def sizeof_chat_message_def)

lemma deserialize_message_terminated:
  assumes "deserialize_message buffer = Some m"
  shows "chat_message_ok m"
    and "msg_username m ! (USERNAME_SIZE - 1) = 0"
    and "msg_content m ! (MESSAGE_SIZE - 1) = 0"
    and "strlen (msg_username m) < USERNAME_SIZE"
    and "strlen (msg_content m) < MESSAGE_SIZE"
proof -
  note d = deserialize_message_Some [OF assms]
  note l = struct_of_bytes_lengths [OF d(1)]
  show ok: "chat_message_ok m"
    by (simp add: d(2) chat_message_ok_def l)
  show u: "msg_username m ! (USERNAME_SIZE - 1) = 0"
    by (simp add: d(2) l USERNAME_SIZE_def)
  show c: "msg_content m ! (MESSAGE_SIZE - 1) = 0"
    by (simp add: d(2) l MESSAGE_SIZE_def BUFFER_SIZE_def USERNAME_SIZE_def)
  have "strlen (msg_username m) \<le> USERNAME_SIZE - 1"
    using ok u by (intro strlen_terminated) (simp_all add: chat_message_ok_def USERNAME_SIZE_def)
  then show "strlen (msg_username m) < USERNAME_SIZE"
    by (simp add: USERNAME_SIZE_def)
  have "strlen (msg_content m) \<le> MESSAGE_SIZE - 1"
    using ok c
    by (intro strlen_terminated)
      (simp_all add: chat_message_ok_def MESSAGE_SIZE_def BUFFER_SIZE_def USERNAME_SIZE_def)
  then show "strlen (msg_content m) < MESSAGE_SIZE"
    by (simp add: MESSAGE_SIZE_def BUFFER_SIZE_def USERNAME_SIZE_def)
qed

lemma c_str_update_after:
  assumes "strlen s \<le> k" and "k < length s"
  shows "c_str (s[k := 0]) = c_str s"
proof -
  let ?P = "\<lambda>b::byte. b \<noteq> 0"
  let ?t = "takeWhile ?P s" and ?d = "dropWhile ?P s"
  have len: "length ?t \<le> k" using assms(1) by (simp add: strlen_def c_str_def)
  have "?d \<noteq> []" using assms len by (metis append_Nil2 leD takeWhile_dropWhile_id)
  then obtain y ys where d: "?d = y # ys" by (cases ?d) auto
  then have y: "y = 0" using hd_dropWhile [of ?P s] by (metis list.sel(1) list.simps(3))
  have "s[k := 0] = ?t @ ?d[k - length ?t := 0]"
    using len by (metis list_update_append not_less takeWhile_dropWhile_id)
  moreover have "takeWhile ?P (?d[k - length ?t := 0]) = []"
    unfolding d y by (cases "k - length ?t") simp_all
  moreover have "takeWhile ?P (?t @ zs) = ?t @ takeWhile ?P zs" for zs
    by (rule takeWhile_append2) (auto dest: set_takeWhileD)
  ultimately have "takeWhile ?P (s[k := 0]) = ?t"
    by simp
  then show ?thesis by (simp add: c_str_def)
qed

lemma le_word_replicate_0 [simp]: "le_word (replicate n 0) = 0"
  by (induction n) simp_all

lemma replicate_update_same: "(replicate n x)[k := x] = replicate n x"
  by (cases "k < n") (auto intro: nth_equalityI simp: nth_list_update)

lemma struct_of_bytes_zero:
  "struct_of_bytes (replicate 984 0) =
     \<lparr>msg_type = 0, msg_username = replicate 32 0, msg_content = replicate 928 0,
      msg_timestamp = 0, msg_length = 0\<rparr>"
  by (simp add: struct_of_bytes_def USERNAME_SIZE_def MESSAGE_SIZE_def BUFFER_SIZE_def)

lemma deserialize_message_zero:
  "deserialize_message (replicate 984 0) =
     Some \<lparr>msg_type = 0, msg_username = replicate 32 0, msg_content = replicate 928 0,
      msg_timestamp = 0, msg_length = 0\<rparr>"
  by (simp add: deserialize_message_def struct_of_bytes_zero sizeof_chat_message_eq
      MSG_CONNECT_def MSG_KEEPALIVE_def replicate_update_same)

lemma struct_of_bytes_type_ff: "msg_type (struct_of_bytes (replicate 984 255)) = 0xFFFFFFFF"
proof -
  have "take 4 (replicate 984 (255::byte)) = [255, 255, 255, 255]"
    by (simp add: numeral_eq_Suc)
  then show ?thesis by (simp add: struct_of_bytes_def)
qed

lemma length_struct_bytes:
  "chat_message_ok m \<Longrightarrow> length (struct_bytes m) = sizeof_chat_message"
  by (simp add: struct_bytes_def chat_message_ok_def sizeof_chat_message_def)

lemma struct_of_bytes_struct_bytes:
  assumes "chat_message_ok m"
  shows "struct_of_bytes (struct_bytes m @ rest) = m"
proof -
  have u: "length (msg_username m) = USERNAME_SIZE" and c: "length (msg_content m) = MESSAGE_SIZE"
    using assms by (simp_all add: chat_message_ok_def)
  let ?bs = "struct_bytes m @ rest"
  have 1: "take 4 ?bs = le_bytes 4 (msg_type m)"
    by (simp add: struct_bytes_def)
  have 2: "take USERNAME_SIZE (drop 4 ?bs) = msg_username m"
    by (simp add: struct_bytes_def u)
  have 3: "take MESSAGE_SIZE (drop (4 + USERNAME_SIZE) ?bs) = msg_content m"
    by (simp add: struct_bytes_def u c)
  have 4: "take 8 (drop (4 + USERNAME_SIZE + MESSAGE_SIZE + 4) ?bs) = le_bytes 8 (msg_timestamp m)"
    by (simp add: struct_bytes_def u c)
  have 5: "take 8 (drop (4 + USERNAME_SIZE + MESSAGE_SIZE + 4 + 8) ?bs) = le_bytes 8 (msg_length m)"
    by (simp add: struct_bytes_def u c)
  show ?thesis
    unfolding struct_of_bytes_def 1 2 3 4 5 by (simp add: le_word_le_bytes)
qed

lemma takeWhile_zero_padding:
  "takeWhile (\<lambda>b. b \<noteq> 0) ((replicate k (0::byte) @ zs)[k := 0]) = []"
proof (cases k)
  case 0
  then show ?thesis by (cases zs) simp_all
next
  case (Suc k')
  then show ?thesis by simp
qed

lemma c_str_strncpy: "c_str ((strncpy dst src n)[n := 0]) = take n (c_str src)"
proof -
  let ?P = "\<lambda>b::byte. b \<noteq> 0"
  let ?s = "take n (c_str src)"
  let ?ys = "replicate (n - length ?s) 0 @ drop n dst"
  have P: "\<forall>x \<in> set ?s. ?P x"
    by (auto simp: c_str_def dest: in_set_takeD set_takeWhileD)
  have len: "length ?s \<le> n" by simp
  have "(strncpy dst src n)[n := 0] = ?s @ ?ys[n - length ?s := 0]"
    using len by (simp add: strncpy_def Let_def list_update_append del: length_take)
  moreover have "takeWhile ?P (?ys[n - length ?s := 0]) = []"
    by (rule takeWhile_zero_padding)
  moreover have "takeWhile ?P (?s @ zs) = ?s @ takeWhile ?P zs" for zs
    by (rule takeWhile_append2) (use P in blast)
  ultimately have "takeWhile ?P ((strncpy dst src n)[n := 0]) = ?s" by simp
  then show ?thesis by (simp add: c_str_def)
qed

text \<open>
  Claim C6. \<open>deserialize_message\<close> fails on every buffer shorter than the frame, and on
  every buffer whose type field is none of the six enumerators. Whenever it succeeds,
  the user name and the content of the resulting message have their declared sizes, end
  in a zero byte, and so hold strings shorter than 32 and \<open>MESSAGE_SIZE\<close> bytes,
  whatever the input bytes were.
\<close>

theorem deserialize_message_checks:
  "(length buffer < sizeof_chat_message \<longrightarrow> deserialize_message buffer = None) \<and>
   (msg_type (struct_of_bytes buffer) \<notin>
      {MSG_CONNECT, MSG_DISCONNECT, MSG_CHAT, MSG_NOTIFICATION, MSG_ERROR, MSG_KEEPALIVE}
    \<longrightarrow> deserialize_message buffer = None) \<and>
   (\<forall>m. deserialize_message buffer = Some m \<longrightarrow>
      length (msg_username m) = USERNAME_SIZE \<and>
      msg_username m ! (USERNAME_SIZE - 1) = 0 \<and>
      strlen (msg_username m) < USERNAME_SIZE \<and>
      length (msg_content m) = MESSAGE_SIZE \<and>
      msg_content m ! (MESSAGE_SIZE - 1) = 0 \<and>
      strlen (msg_content m) < MESSAGE_SIZE)"
proof (intro conjI impI allI)
  assume "length buffer < sizeof_chat_message"
  then show "deserialize_message buffer = None"
    by (rule deserialize_message_short)
next
  assume "msg_type (struct_of_bytes buffer) \<notin>
    {MSG_CONNECT, MSG_DISCONNECT, MSG_CHAT, MSG_NOTIFICATION, MSG_ERROR, MSG_KEEPALIVE}"
  then show "deserialize_message buffer = None"
    by (rule deserialize_message_bad_type)
next
  fix m
  assume m: "deserialize_message buffer = Some m"
  show "length (msg_username m) = USERNAME_SIZE"
    using deserialize_message_terminated(1) [OF m] by (simp add: chat_message_ok_def)
  show "length (msg_content m) = MESSAGE_SIZE"
    using deserialize_message_terminated(1) [OF m] by (simp add: chat_message_ok_def)
  show "msg_username m ! (USERNAME_SIZE - 1) = 0"
    by (rule deserialize_message_terminated(2) [OF m])
  show "msg_content m ! (MESSAGE_SIZE - 1) = 0"
    by (rule deserialize_message_terminated(3) [OF m])
  show "strlen (msg_username m) < USERNAME_SIZE"
    by (rule deserialize_message_terminated(4) [OF m])
  show "strlen (msg_content m) < MESSAGE_SIZE"
    by (rule deserialize_message_terminated(5) [OF m])
qed

theorem deserialize_message_checks_witness:
  "deserialize_message [] = None \<and>
   deserialize_message (replicate 984 255) = None \<and>
   (\<exists>m. deserialize_message (replicate 984 0) = Some m \<and>
        msg_username m ! (USERNAME_SIZE - 1) = 0 \<and> strlen (msg_content m) < MESSAGE_SIZE)"
proof -
  have a: "length ([] :: byte list) < sizeof_chat_message"
    by (simp add: sizeof_chat_message_eq)
  have b: "msg_type (struct_of_bytes (replicate 984 255)) \<notin>
      {MSG_CONNECT, MSG_DISCONNECT, MSG_CHAT, MSG_NOTIFICATION, MSG_ERROR, MSG_KEEPALIVE}"
    by (simp add: struct_of_bytes_type_ff MSG_CONNECT_def MSG_DISCONNECT_def MSG_CHAT_def
        MSG_NOTIFICATION_def MSG_ERROR_def MSG_KEEPALIVE_def)
  show ?thesis
    using a b deserialize_message_zero
      deserialize_message_checks [of "[]"]
      deserialize_message_checks [of "replicate 984 255"]
      deserialize_message_checks [of "replicate 984 0"]
    by blast
qed

lemma length_strncpy: "n \<le> length dst \<Longrightarrow> length (strncpy dst src n) = length dst"
  by (simp add: strncpy_def Let_def)

lemma init_message_ok: "chat_message_ok (init_message t u c now)"
  by (simp add: init_message_def chat_message_ok_def Let_def length_strncpy
      split: option.splits)

lemma init_message_terminated:
  "msg_username (init_message t u c now) ! (USERNAME_SIZE - 1) = 0"
  "msg_content (init_message t u c now) ! (MESSAGE_SIZE - 1) = 0"
  by (simp_all add: init_message_def Let_def length_strncpy USERNAME_SIZE_def MESSAGE_SIZE_def
      BUFFER_SIZE_def split: option.splits)

lemma init_message_strlen:
  "strlen (msg_username (init_message t u c now)) < USERNAME_SIZE"
  "strlen (msg_content (init_message t u c now)) < MESSAGE_SIZE"
proof -
  let ?m = "init_message t u c now"
  have "strlen (msg_username ?m) \<le> USERNAME_SIZE - 1"
    using init_message_ok [of t u c now] init_message_terminated(1) [of t u c now]
    by (intro strlen_terminated) (simp_all add: chat_message_ok_def USERNAME_SIZE_def)
  then show "strlen (msg_username ?m) < USERNAME_SIZE" by (simp add: USERNAME_SIZE_def)
  have "strlen (msg_content ?m) \<le> MESSAGE_SIZE - 1"
    using init_message_ok [of t u c now] init_message_terminated(2) [of t u c now]
    by (intro strlen_terminated)
      (simp_all add: chat_message_ok_def MESSAGE_SIZE_def BUFFER_SIZE_def USERNAME_SIZE_def)
  then show "strlen (msg_content ?m) < MESSAGE_SIZE"
    by (simp add: MESSAGE_SIZE_def BUFFER_SIZE_def USERNAME_SIZE_def)
qed

lemma deserialize_struct_bytes:
  assumes "chat_message_ok m"
    and "msg_type m \<in>
      {MSG_CONNECT, MSG_DISCONNECT, MSG_CHAT, MSG_NOTIFICATION, MSG_ERROR, MSG_KEEPALIVE}"
  shows "deserialize_message (struct_bytes m @ rest) =
     Some (m\<lparr>msg_username := (msg_username m)[USERNAME_SIZE - 1 := 0],
              msg_content := (msg_content m)[MESSAGE_SIZE - 1 := 0]\<rparr>)"
proof -
  have "\<not> length (struct_bytes m @ rest) < sizeof_chat_message"
    using length_struct_bytes [OF assms(1)] by simp
  moreover have "\<not> (msg_type m < MSG_CONNECT \<or> msg_type m > MSG_KEEPALIVE)"
    using assms(2) message_type_range [of "msg_type m"] by blast
  ultimately show ?thesis
    by (simp add: deserialize_message_def struct_of_bytes_struct_bytes [OF assms(1)])
qed

text \<open>
  Claim C3. For a message whose type is one of the six enumerators and whose user name
  and content hold strings that end within their arrays, \<open>serialize_message\<close> on a
  buffer of at least the frame size returns the frame size, and
  \<open>deserialize_message\<close> on the resulting buffer succeeds with a message that has the
  same type, the same user name and content strings, the same timestamp and the same
  length. The message read back is the original with the last byte of both arrays set to
  zero; it is the original itself when those bytes were zero already.
\<close>

theorem serialize_deserialize_roundtrip:
  assumes "chat_message_ok m"
    and "msg_type m \<in>
      {MSG_CONNECT, MSG_DISCONNECT, MSG_CHAT, MSG_NOTIFICATION, MSG_ERROR, MSG_KEEPALIVE}"
    and "strlen (msg_username m) < USERNAME_SIZE"
    and "strlen (msg_content m) < MESSAGE_SIZE"
    and "sizeof_chat_message \<le> length buffer"
  shows "\<exists>buffer' m'.
     serialize_message m buffer = (int sizeof_chat_message, buffer') \<and>
     length buffer' = length buffer \<and>
     deserialize_message buffer' = Some m' \<and>
     m' = m\<lparr>msg_username := (msg_username m)[USERNAME_SIZE - 1 := 0],
             msg_content := (msg_content m)[MESSAGE_SIZE - 1 := 0]\<rparr> \<and>
     msg_type m' = msg_type m \<and>
     c_str (msg_username m') = c_str (msg_username m) \<and>
     c_str (msg_content m') = c_str (msg_content m) \<and>
     msg_timestamp m' = msg_timestamp m \<and>
     msg_length m' = msg_length m \<and>
     (msg_username m ! (USERNAME_SIZE - 1) = 0 \<and> msg_content m ! (MESSAGE_SIZE - 1) = 0
        \<longrightarrow> m' = m)"
proof -
  let ?buffer' = "struct_bytes m @ drop sizeof_chat_message buffer"
  let ?m' = "m\<lparr>msg_username := (msg_username m)[USERNAME_SIZE - 1 := 0],
               msg_content := (msg_content m)[MESSAGE_SIZE - 1 := 0]\<rparr>"
  have ser: "serialize_message m buffer = (int sizeof_chat_message, ?buffer')"
    using assms(5) by (simp add: serialize_message_def)
  have len: "length ?buffer' = length buffer"
    using assms(5) length_struct_bytes [OF assms(1)] by simp
  have de: "deserialize_message ?buffer' = Some ?m'"
    by (rule deserialize_struct_bytes [OF assms(1,2)])
  have u: "c_str ((msg_username m)[USERNAME_SIZE - 1 := 0]) = c_str (msg_username m)"
    using assms(1,3)
    by (intro c_str_update_after) (simp_all add: chat_message_ok_def USERNAME_SIZE_def)
  have c: "c_str ((msg_content m)[MESSAGE_SIZE - 1 := 0]) = c_str (msg_content m)"
    using assms(1,4)
    by (intro c_str_update_after)
      (simp_all add: chat_message_ok_def MESSAGE_SIZE_def BUFFER_SIZE_def USERNAME_SIZE_def)
  have same: "?m' = m"
    if "msg_username m ! (USERNAME_SIZE - 1) = 0" "msg_content m ! (MESSAGE_SIZE - 1) = 0"
  proof -
    have "(msg_username m)[USERNAME_SIZE - 1 := 0] = msg_username m"
      using that(1) list_update_id [of "msg_username m" "USERNAME_SIZE - 1"] by simp
    moreover have "(msg_content m)[MESSAGE_SIZE - 1 := 0] = msg_content m"
      using that(2) list_update_id [of "msg_content m" "MESSAGE_SIZE - 1"] by simp
    ultimately show ?thesis by simp
  qed
  show ?thesis
    using ser len de u c same by simp
qed

theorem serialize_deserialize_roundtrip_witness:
  "\<exists>buffer'.
     serialize_message (init_message MSG_CHAT (Some (ascii ''alice'')) (Some (ascii ''hi'')) 0)
       (replicate BUFFER_SIZE 0) = (int sizeof_chat_message, buffer') \<and>
     deserialize_message buffer' =
       Some (init_message MSG_CHAT (Some (ascii ''alice'')) (Some (ascii ''hi'')) 0)"
proof -
  let ?m = "init_message MSG_CHAT (Some (ascii ''alice'')) (Some (ascii ''hi'')) 0"
  have t: "msg_type ?m \<in>
      {MSG_CONNECT, MSG_DISCONNECT, MSG_CHAT, MSG_NOTIFICATION, MSG_ERROR, MSG_KEEPALIVE}"
    by (simp add: init_message_def Let_def)
  have b: "sizeof_chat_message \<le> length (replicate BUFFER_SIZE (0::byte))"
    by (simp add: sizeof_chat_message_eq BUFFER_SIZE_def)
  show ?thesis
    using serialize_deserialize_roundtrip [OF init_message_ok t init_message_strlen b]
      init_message_terminated [of MSG_CHAT "Some (ascii ''alice'')" "Some (ascii ''hi'')" 0]
    by auto
qed

section \<open>The loops over the slots\<close>

lemma find_free_slot_find:
  "find_free_slot cs is =
     (case List.find (\<lambda>i. \<not> active (cs ! i)) is of None \<Rightarrow> - 1 | Some i \<Rightarrow> int i)"
  by (induction "is") auto

lemma remove_loop_find:
  "remove_loop net now ctx w s is =
     (case List.find (\<lambda>i. active (clients ctx ! i) \<and> socket_fd (clients ctx ! i) = s) is of
        None \<Rightarrow> (- 1, ctx, w)
      | Some i \<Rightarrow> remove_slot net now ctx w s i)"
  by (induction "is") auto

lemma find_client_loop_find:
  "find_client_loop cs s is =
     List.find (\<lambda>i. active (cs ! i) \<and> socket_fd (cs ! i) = s) is"
  by (induction "is") auto

lemma find_upt_Some:
  "List.find P [0..<n] = Some i \<longleftrightarrow> i < n \<and> P i \<and> (\<forall>j<i. \<not> P j)"
proof -
  have "List.find P [0..<n] = Some i \<longleftrightarrow>
      (\<exists>k<length [0..<n]. P ([0..<n] ! k) \<and> i = [0..<n] ! k \<and> (\<forall>j<k. \<not> P ([0..<n] ! j)))"
    by (rule find_Some_iff)
  also have "\<dots> \<longleftrightarrow> i < n \<and> P i \<and> (\<forall>j<i. \<not> P j)"
    by auto
  finally show ?thesis .
qed

lemma find_upt_None: "List.find P [0..<n] = None \<longleftrightarrow> (\<forall>i<n. \<not> P i)"
  by (simp add: find_None_iff)

lemma find_free_slot_full:
  "find_free_slot cs [0..<n] = - 1 \<longleftrightarrow> (\<forall>i<n. active (cs ! i))"
proof (cases "List.find (\<lambda>i. \<not> active (cs ! i)) [0..<n]")
  case None
  then show ?thesis
    using find_upt_None [of "\<lambda>i. \<not> active (cs ! i)" n] by (simp add: find_free_slot_find)
next
  case (Some i)
  then have "i < n \<and> \<not> active (cs ! i)"
    using find_upt_Some [of "\<lambda>i. \<not> active (cs ! i)" n i] by simp
  then show ?thesis
    using Some by (auto simp add: find_free_slot_find)
qed

lemma find_free_slot_index:
  "find_free_slot cs [0..<n] = int i \<longleftrightarrow>
     i < n \<and> \<not> active (cs ! i) \<and> (\<forall>j<i. active (cs ! j))"
proof (cases "List.find (\<lambda>i. \<not> active (cs ! i)) [0..<n]")
  case None
  then have "\<forall>i<n. active (cs ! i)"
    using find_upt_None [of "\<lambda>i. \<not> active (cs ! i)" n] by simp
  then show ?thesis
    using None by (auto simp add: find_free_slot_find)
next
  case (Some k)
  have "List.find (\<lambda>i. \<not> active (cs ! i)) [0..<n] = Some i \<longleftrightarrow>
      i < n \<and> \<not> active (cs ! i) \<and> (\<forall>j<i. active (cs ! j))"
    using find_upt_Some [of "\<lambda>i. \<not> active (cs ! i)" n i] by simp
  then show ?thesis
    using Some by (simp add: find_free_slot_find)
qed

lemma find_free_slot_range:
  "find_free_slot cs [0..<n] = - 1 \<or> (\<exists>i<n. find_free_slot cs [0..<n] = int i)"
proof (cases "List.find (\<lambda>i. \<not> active (cs ! i)) [0..<n]")
  case None
  then show ?thesis by (simp add: find_free_slot_find)
next
  case (Some i)
  then have "i < n"
    using find_upt_Some [of "\<lambda>i. \<not> active (cs ! i)" n i] by simp
  then show ?thesis using Some by (simp add: find_free_slot_find)
qed

section \<open>Properties of the registry\<close>

lemma add_client_result:
  assumes "add_client ctx s a u t = (r, ctx')"
  shows "(r = - 1 \<and> ctx' = ctx \<and>
          (client_count ctx \<ge> int MAX_CLIENTS \<or> (\<forall>i<MAX_CLIENTS. active (clients ctx ! i)))) \<or>
         (\<exists>i<MAX_CLIENTS. r = int i \<and> client_count ctx < int MAX_CLIENTS \<and>
            \<not> active (clients ctx ! i) \<and> (\<forall>j<i. active (clients ctx ! j)) \<and>
            ctx' = ctx\<lparr>clients := (clients ctx)
                     [i := (clients ctx ! i)
                        \<lparr>socket_fd := s, address := a, connect_time := t, active := True,
                         disconnect_notified := False,
                         username := (strncpy (username (clients ctx ! i)) u (USERNAME_SIZE - 1))
                                       [USERNAME_SIZE - 1 := 0]\<rparr>],
                   client_count := client_count ctx + 1\<rparr>)"
proof (cases "client_count ctx \<ge> int MAX_CLIENTS")
  case True
  then show ?thesis using assms by (simp add: add_client_def)
next
  case False
  show ?thesis
  proof (cases "find_free_slot (clients ctx) [0..<MAX_CLIENTS] = - 1")
    case True
    then have "\<forall>i<MAX_CLIENTS. active (clients ctx ! i)"
      by (simp add: find_free_slot_full)
    then show ?thesis using assms False True by (simp add: add_client_def)
  next
    case neg: False
    then obtain i where i: "i < MAX_CLIENTS"
        and f: "find_free_slot (clients ctx) [0..<MAX_CLIENTS] = int i"
      using find_free_slot_range [of "clients ctx" MAX_CLIENTS] by blast
    have p: "\<not> active (clients ctx ! i)" "\<forall>j<i. active (clients ctx ! j)"
      using f by (simp_all add: find_free_slot_index)
    have "add_client ctx s a u t =
        (int i, ctx\<lparr>clients := (clients ctx)
                     [i := (clients ctx ! i)
                        \<lparr>socket_fd := s, address := a, connect_time := t, active := True,
                         disconnect_notified := False,
                         username := (strncpy (username (clients ctx ! i)) u (USERNAME_SIZE - 1))
                                       [USERNAME_SIZE - 1 := 0]\<rparr>],
                   client_count := client_count ctx + 1\<rparr>)"
      using False f by (simp add: add_client_def Let_def)
    then show ?thesis using assms i p False by auto
  qed
qed

lemma add_client_registers:
  assumes "server_context_ok ctx" and "add_client ctx s a u t = (r, ctx')" and "r \<ge> 0"
  shows "\<exists>i<MAX_CLIENTS. r = int i \<and>
     \<not> active (clients ctx ! i) \<and> (\<forall>j<i. active (clients ctx ! j)) \<and>
     active (clients ctx' ! i) \<and> socket_fd (clients ctx' ! i) = s \<and>
     address (clients ctx' ! i) = a \<and> connect_time (clients ctx' ! i) = t \<and>
     \<not> disconnect_notified (clients ctx' ! i) \<and>
     c_str (username (clients ctx' ! i)) = take (USERNAME_SIZE - 1) (c_str u) \<and>
     (\<forall>j<MAX_CLIENTS. j \<noteq> i \<longrightarrow> clients ctx' ! j = clients ctx ! j) \<and>
     length (clients ctx') = MAX_CLIENTS \<and>
     client_count ctx' = client_count ctx + 1 \<and>
     running ctx' = running ctx \<and> server_socket ctx' = server_socket ctx"
proof -
  have len: "length (clients ctx) = MAX_CLIENTS"
    using assms(1) by (simp add: server_context_ok_def)
  from add_client_result [OF assms(2)] assms(3)
  obtain i where i: "i < MAX_CLIENTS" "r = int i"
      "\<not> active (clients ctx ! i)" "\<forall>j<i. active (clients ctx ! j)"
    and c: "ctx' = ctx\<lparr>clients := (clients ctx)
                     [i := (clients ctx ! i)
                        \<lparr>socket_fd := s, address := a, connect_time := t, active := True,
                         disconnect_notified := False,
                         username := (strncpy (username (clients ctx ! i)) u (USERNAME_SIZE - 1))
                                       [USERNAME_SIZE - 1 := 0]\<rparr>],
                   client_count := client_count ctx + 1\<rparr>"
    by auto
  have "clients ctx' ! i = (clients ctx ! i)
                        \<lparr>socket_fd := s, address := a, connect_time := t, active := True,
                         disconnect_notified := False,
                         username := (strncpy (username (clients ctx ! i)) u (USERNAME_SIZE - 1))
                                       [USERNAME_SIZE - 1 := 0]\<rparr>"
    using i(1) len by (simp add: c)
  then have slot: "active (clients ctx' ! i)" "socket_fd (clients ctx' ! i) = s"
     "address (clients ctx' ! i) = a" "connect_time (clients ctx' ! i) = t"
     "\<not> disconnect_notified (clients ctx' ! i)"
     "c_str (username (clients ctx' ! i)) = take (USERNAME_SIZE - 1) (c_str u)"
    by (simp_all add: c_str_strncpy)
  have others: "\<forall>j<MAX_CLIENTS. j \<noteq> i \<longrightarrow> clients ctx' ! j = clients ctx ! j"
    by (simp add: c)
  have rest: "length (clients ctx') = MAX_CLIENTS" "client_count ctx' = client_count ctx + 1"
     "running ctx' = running ctx" "server_socket ctx' = server_socket ctx"
    by (simp_all add: c len)
  show ?thesis
    using i slot others rest by blast
qed

lemma remove_client_not_running:
  "\<not> running ctx \<Longrightarrow> remove_client net now ctx w s = (0, ctx, w)"
  by (simp add: remove_client_def)

section \<open>Properties of the broadcast\<close>

lemma length_send_results [simp]: "length (send_results net k fds) = length fds"
  by (induction fds arbitrary: k) auto

lemma nth_send_results:
  "j < length fds \<Longrightarrow> send_results net k fds ! j = net (k + j) (fds ! j)"
proof (induction fds arbitrary: k j)
  case Nil
  then show ?case by simp
next
  case (Cons fd fds)
  then show ?case by (cases j) auto
qed

lemma targets_update_other:
  assumes "i \<notin> set is"
  shows "filter (broadcast_target (cs[i := c]) ex) is = filter (broadcast_target cs ex) is"
proof (rule filter_cong [OF refl])
  fix x assume "x \<in> set is"
  then have "i \<noteq> x" using assms by auto
  then show "broadcast_target (cs[i := c]) ex x = broadcast_target cs ex x"
    by (simp add: broadcast_target_def)
qed

lemma fds_update_other:
  assumes "i \<notin> set xs"
  shows "map (\<lambda>j. socket_fd (cs[i := c] ! j)) xs = map (\<lambda>j. socket_fd (cs ! j)) xs"
proof (rule map_cong [OF refl])
  fix x assume "x \<in> set xs"
  then have "i \<noteq> x" using assms by auto
  then show "socket_fd (cs[i := c] ! x) = socket_fd (cs ! x)" by simp
qed

lemma broadcast_loop_step:
  "broadcast_loop net buf ex (i # is) (n, ctx, w) =
     (if broadcast_target (clients ctx) ex i then
        (let fd = socket_fd (clients ctx ! i);
             r = net (length (sent w)) fd;
             w' = w\<lparr>sent := sent w @ [\<lparr>ev_socket = fd, ev_data = buf, ev_result = r\<rparr>]\<rparr>
         in if r > 0 then broadcast_loop net buf ex is (n + 1, ctx, w')
            else broadcast_loop net buf ex is
                   (n, ctx\<lparr>clients := (clients ctx)[i := (clients ctx ! i)\<lparr>active := False\<rparr>]\<rparr>, w'))
      else broadcast_loop net buf ex is (n, ctx, w))"
  by (simp add: broadcast_target_def send_def Let_def)

lemma broadcast_loop_closed_form:
  assumes "distinct is"
  shows "broadcast_loop net buf ex is (n, ctx, w) =
     (let tg = filter (broadcast_target (clients ctx) ex) is;
          fds = map (\<lambda>i. socket_fd (clients ctx ! i)) tg;
          rs = send_results net (length (sent w)) fds
      in (n + int (length (filter (\<lambda>r. r > 0) rs)),
          ctx\<lparr>clients := deactivate (zip tg rs) (clients ctx)\<rparr>,
          w\<lparr>sent := sent w @
                map (\<lambda>(fd, r). \<lparr>ev_socket = fd, ev_data = buf, ev_result = r\<rparr>) (zip fds rs)\<rparr>))"
  using assms
proof (induction "is" arbitrary: n ctx w)
  case Nil
  then show ?case by simp
next
  case (Cons i "is")
  have d: "distinct is" and ni: "i \<notin> set is" using Cons.prems by auto
  show ?case
  proof (cases "broadcast_target (clients ctx) ex i")
    case False
    then show ?thesis
      unfolding broadcast_loop_step Cons.IH [OF d] by (simp add: Let_def)
  next
    case True
    show ?thesis
    proof (cases "net (length (sent w)) (socket_fd (clients ctx ! i)) > 0")
      case pos: True
      show ?thesis
        unfolding broadcast_loop_step Cons.IH [OF d] using True pos by (simp add: Let_def)
    next
      case neg: False
      have ni': "i \<notin> set (filter (broadcast_target (clients ctx) ex) is)"
        using ni by simp
      show ?thesis
        unfolding broadcast_loop_step Cons.IH [OF d] using True neg
        by (simp add: Let_def targets_update_other [OF ni] fds_update_other [OF ni'])
    qed
  qed
qed


lemma length_deactivate [simp]: "length (deactivate irs cs) = length cs"
  by (induction irs cs rule: deactivate.induct) auto

lemma deactivate_other:
  "j \<notin> fst ` set irs \<Longrightarrow> deactivate irs cs ! j = cs ! j"
proof (induction irs cs rule: deactivate.induct)
  case (1 cs)
  then show ?case by simp
next
  case (2 i r irs cs)
  then have "j \<noteq> i" and "j \<notin> fst ` set irs" by auto
  with 2 show ?case by simp
qed

lemma deactivate_target:
  assumes "distinct (map fst irs)" and "k < length irs" and "fst (irs ! k) < length cs"
  shows "deactivate irs cs ! fst (irs ! k) =
     (if snd (irs ! k) > 0 then cs ! fst (irs ! k)
      else (cs ! fst (irs ! k))\<lparr>active := False\<rparr>)"
  using assms
proof (induction irs cs arbitrary: k rule: deactivate.induct)
  case (1 cs)
  then show ?case by simp
next
  case (2 i r irs cs)
  let ?cs' = "if r > 0 then cs else cs[i := (cs ! i)\<lparr>active := False\<rparr>]"
  have d: "distinct (map fst irs)" and ni: "i \<notin> fst ` set irs"
    using "2.prems"(1) by auto
  show ?case
  proof (cases k)
    case 0
    have "deactivate ((i, r) # irs) cs ! i = ?cs' ! i"
      using deactivate_other [OF ni, of ?cs'] by simp
    then show ?thesis using 0 "2.prems"(3) by simp
  next
    case (Suc k')
    then have k': "k' < length irs" using "2.prems"(2) by simp
    have ne: "fst (irs ! k') \<noteq> i"
      using ni k' by (metis image_eqI nth_mem)
    have len: "fst (irs ! k') < length ?cs'"
      using "2.prems"(3) Suc by simp
    have "deactivate irs ?cs' ! fst (irs ! k') =
        (if snd (irs ! k') > 0 then ?cs' ! fst (irs ! k')
         else (?cs' ! fst (irs ! k'))\<lparr>active := False\<rparr>)"
      by (rule "2.IH" [OF d k' len])
    then show ?thesis using Suc ne by simp
  qed
qed

lemma broadcast_message_loop:
  assumes "chat_message_ok m"
  shows "broadcast_message net ctx w m s =
     broadcast_loop net (struct_bytes m) s [0..<MAX_CLIENTS] (0, ctx, w)"
proof -
  have "sizeof_chat_message \<le> BUFFER_SIZE"
    by (simp add: sizeof_chat_message_eq BUFFER_SIZE_def)
  then have "serialize_message m (replicate BUFFER_SIZE 0) =
      (int sizeof_chat_message, struct_bytes m @ drop sizeof_chat_message (replicate BUFFER_SIZE 0))"
    by (simp add: serialize_message_def)
  then show ?thesis
    using length_struct_bytes [OF assms] by (simp add: broadcast_message_def)
qed

lemma broadcast_message_closed_form:
  assumes "chat_message_ok m"
  shows "broadcast_message net ctx w m s =
     (let tg = broadcast_targets ctx s;
          fds = map (\<lambda>i. socket_fd (clients ctx ! i)) tg;
          rs = send_results net (length (sent w)) fds
      in (int (length (filter (\<lambda>r. r > 0) rs)),
          ctx\<lparr>clients := deactivate (zip tg rs) (clients ctx)\<rparr>,
          w\<lparr>sent := sent w @
                map (\<lambda>(fd, r). \<lparr>ev_socket = fd, ev_data = struct_bytes m, ev_result = r\<rparr>)
                  (zip fds rs)\<rparr>))"
  unfolding broadcast_message_loop [OF assms] broadcast_targets_def
  by (subst broadcast_loop_closed_form) simp_all

lemma broadcast_message_effect:
  assumes "server_context_ok ctx" and "chat_message_ok m"
    and "broadcast_message net ctx w m s = (sent_count, ctx', w')"
  shows "sent w' = sent w @ new_events w w'"
    and "closed w' = closed w"
    and "length (new_events w w') = length (broadcast_targets ctx s)"
    and "\<forall>e \<in> set (new_events w w'). ev_socket e \<noteq> s"
    and "\<forall>i < MAX_CLIENTS. active (clients ctx ! i) \<and> socket_fd (clients ctx ! i) \<noteq> s
           \<longleftrightarrow> i \<in> set (broadcast_targets ctx s)"
    and "\<forall>k < length (broadcast_targets ctx s).
           ev_socket (new_events w w' ! k) = socket_fd (clients ctx ! (broadcast_targets ctx s ! k)) \<and>
           ev_data (new_events w w' ! k) = struct_bytes m \<and>
           ev_result (new_events w w' ! k) =
             net (length (sent w) + k) (ev_socket (new_events w w' ! k)) \<and>
           clients ctx' ! (broadcast_targets ctx s ! k) =
             (if ev_result (new_events w w' ! k) > 0 then clients ctx ! (broadcast_targets ctx s ! k)
              else (clients ctx ! (broadcast_targets ctx s ! k))\<lparr>active := False\<rparr>)"
    and "sent_count = int (length (broadcast_targets ctx s))
           - int (length (filter (\<lambda>e. ev_result e \<le> 0) (new_events w w')))"
    and "\<forall>i < MAX_CLIENTS. i \<notin> set (broadcast_targets ctx s) \<longrightarrow> clients ctx' ! i = clients ctx ! i"
    and "length (clients ctx') = MAX_CLIENTS"
    and "client_count ctx' = client_count ctx"
    and "running ctx' = running ctx"
    and "server_socket ctx' = server_socket ctx"
proof -
  let ?tg = "broadcast_targets ctx s"
  let ?fds = "map (\<lambda>i. socket_fd (clients ctx ! i)) ?tg"
  let ?rs = "send_results net (length (sent w)) ?fds"
  let ?evs = "map (\<lambda>(fd, r). \<lparr>ev_socket = fd, ev_data = struct_bytes m, ev_result = r\<rparr>) (zip ?fds ?rs)"
  have len: "length (clients ctx) = MAX_CLIENTS"
    using assms(1) by (simp add: server_context_ok_def)
  have cf: "sent_count = int (length (filter (\<lambda>r. r > 0) ?rs))"
    "ctx' = ctx\<lparr>clients := deactivate (zip ?tg ?rs) (clients ctx)\<rparr>"
    "w' = w\<lparr>sent := sent w @ ?evs\<rparr>"
    using assms(3) unfolding broadcast_message_closed_form [OF assms(2)] by (simp_all add: Let_def)
  have tg_set: "i \<in> set ?tg \<longleftrightarrow> i < MAX_CLIENTS \<and> active (clients ctx ! i) \<and> socket_fd (clients ctx ! i) \<noteq> s" for i
    by (simp add: broadcast_targets_def broadcast_target_def)
  have tg_dist: "distinct ?tg" by (simp add: broadcast_targets_def)
  have levs: "length ?evs = length ?tg" by simp
  have ev: "?evs ! k = \<lparr>ev_socket = ?fds ! k, ev_data = struct_bytes m, ev_result = ?rs ! k\<rparr>"
    if "k < length ?tg" for k using that by simp
  have 1: "sent w' = sent w @ ?evs" "closed w' = closed w" unfolding cf(3) by simp_all
  have 2: "\<forall>e \<in> set ?evs. ev_socket e \<noteq> s"
  proof
    fix e assume "e \<in> set ?evs"
    then obtain k where "k < length ?evs" and e: "e = ?evs ! k"
      unfolding in_set_conv_nth by blast
    then have k: "k < length ?tg" by simp
    have "?tg ! k \<in> set ?tg" using k by simp
    then have "socket_fd (clients ctx ! (?tg ! k)) \<noteq> s" using tg_set by blast
    then show "ev_socket e \<noteq> s" using e ev [OF k] k by simp
  qed
  have 3: "\<forall>k < length ?evs.
        ev_socket (?evs ! k) = socket_fd (clients ctx ! (?tg ! k)) \<and>
        ev_data (?evs ! k) = struct_bytes m \<and>
        ev_result (?evs ! k) = net (length (sent w) + k) (ev_socket (?evs ! k)) \<and>
        clients ctx' ! (?tg ! k) =
          (if ev_result (?evs ! k) > 0 then clients ctx ! (?tg ! k)
           else (clients ctx ! (?tg ! k))\<lparr>active := False\<rparr>)"
  proof (intro allI impI)
    fix k assume "k < length ?evs"
    then have k: "k < length ?tg" by simp
    have kz: "k < length (zip ?tg ?rs)" using k by simp
    have z: "zip ?tg ?rs ! k = (?tg ! k, ?rs ! k)" using k by simp
    have "?tg ! k \<in> set ?tg" using k by simp
    then have lt: "fst (zip ?tg ?rs ! k) < length (clients ctx)"
      using tg_set len z by simp
    have dz: "distinct (map fst (zip ?tg ?rs))" using tg_dist by simp
    have "deactivate (zip ?tg ?rs) (clients ctx) ! fst (zip ?tg ?rs ! k) =
       (if snd (zip ?tg ?rs ! k) > 0 then clients ctx ! fst (zip ?tg ?rs ! k)
        else (clients ctx ! fst (zip ?tg ?rs ! k))\<lparr>active := False\<rparr>)"
      by (rule deactivate_target [OF dz kz lt])
    then have c: "clients ctx' ! (?tg ! k) =
       (if ?rs ! k > 0 then clients ctx ! (?tg ! k)
        else (clients ctx ! (?tg ! k))\<lparr>active := False\<rparr>)"
      unfolding z by (simp add: cf(2))
    have r: "?rs ! k = net (length (sent w) + k) (?fds ! k)"
      using k by (simp add: nth_send_results)
    show "ev_socket (?evs ! k) = socket_fd (clients ctx ! (?tg ! k)) \<and>
        ev_data (?evs ! k) = struct_bytes m \<and>
        ev_result (?evs ! k) = net (length (sent w) + k) (ev_socket (?evs ! k)) \<and>
        clients ctx' ! (?tg ! k) =
          (if ev_result (?evs ! k) > 0 then clients ctx ! (?tg ! k)
           else (clients ctx ! (?tg ! k))\<lparr>active := False\<rparr>)"
      unfolding ev [OF k] using c r k by simp
  qed
  have "length (filter (\<lambda>e. ev_result e \<le> 0) ?evs) = length (filter (\<lambda>r. r \<le> 0) ?rs)"
  proof -
    have "map ev_result ?evs = ?rs"
      by (rule nth_equalityI) simp_all
    then have "length (filter (\<lambda>r. r \<le> 0) ?rs) = length (filter (\<lambda>r. r \<le> 0) (map ev_result ?evs))"
      by simp
    also have "\<dots> = length (filter (\<lambda>e. ev_result e \<le> 0) ?evs)"
      by (simp add: filter_map o_def)
    finally show ?thesis by simp
  qed
  moreover have "length (filter (\<lambda>r. r > 0) ?rs) + length (filter (\<lambda>r. r \<le> 0) ?rs) = length ?rs"
    using sum_length_filter_compl [of "\<lambda>r. r > 0" ?rs] by (simp add: not_less)
  ultimately have 4: "sent_count = int (length ?tg) - int (length (filter (\<lambda>e. ev_result e \<le> 0) ?evs))"
    using cf(1) by simp
  have 5: "\<forall>i < MAX_CLIENTS. i \<notin> set ?tg \<longrightarrow> clients ctx' ! i = clients ctx ! i"
  proof (intro allI impI)
    fix i assume "i < MAX_CLIENTS" "i \<notin> set ?tg"
    then have "i \<notin> fst ` set (zip ?tg ?rs)"
      by (metis (no_types, lifting) imageE in_set_zipE prod.collapse)
    then show "clients ctx' ! i = clients ctx ! i"
      by (simp add: cf(2) deactivate_other)
  qed
  have 6: "length (clients ctx') = MAX_CLIENTS" "client_count ctx' = client_count ctx"
    "running ctx' = running ctx" "server_socket ctx' = server_socket ctx"
    by (simp_all add: cf(2) len)
  have ne: "new_events w w' = ?evs" by (simp add: new_events_def 1)
  show "sent w' = sent w @ new_events w w'" unfolding ne by (rule 1)
  show "closed w' = closed w" by (rule 1)
  show "length (new_events w w') = length ?tg" unfolding ne by (rule levs)
  show "\<forall>e \<in> set (new_events w w'). ev_socket e \<noteq> s" unfolding ne by (rule 2)
  show "\<forall>i < MAX_CLIENTS. active (clients ctx ! i) \<and> socket_fd (clients ctx ! i) \<noteq> s
           \<longleftrightarrow> i \<in> set ?tg"
    using tg_set by blast
  show "\<forall>k < length ?tg.
           ev_socket (new_events w w' ! k) = socket_fd (clients ctx ! (?tg ! k)) \<and>
           ev_data (new_events w w' ! k) = struct_bytes m \<and>
           ev_result (new_events w w' ! k) =
             net (length (sent w) + k) (ev_socket (new_events w w' ! k)) \<and>
           clients ctx' ! (?tg ! k) =
             (if ev_result (new_events w w' ! k) > 0 then clients ctx ! (?tg ! k)
              else (clients ctx ! (?tg ! k))\<lparr>active := False\<rparr>)"
    unfolding ne using 3 unfolding levs by blast
  show "sent_count = int (length ?tg)
           - int (length (filter (\<lambda>e. ev_result e \<le> 0) (new_events w w')))"
    unfolding ne by (rule 4)
  show "\<forall>i < MAX_CLIENTS. i \<notin> set ?tg \<longrightarrow> clients ctx' ! i = clients ctx ! i"
    by (rule 5)
  show "length (clients ctx') = MAX_CLIENTS" "client_count ctx' = client_count ctx"
    "running ctx' = running ctx" "server_socket ctx' = server_socket ctx"
    by (rule 6)+
qed

text \<open>
  Claim C4. \<open>broadcast_message ctx m s\<close> makes exactly one call of \<open>send\<close> for each
  slot that is active with a socket other than \<open>s\<close>, in slot order, with the frame of
  \<open>m\<close>, and none to \<open>s\<close>. The returned count is the number of those slots minus the
  number of sends that failed. A slot whose send failed is marked inactive, every other
  slot is unchanged, and the sends after a failed one are still made. The counter
  \<open>client_count\<close> is not touched.
\<close>

theorem broadcast_message_delivery:
  assumes "server_context_ok ctx" and "chat_message_ok m"
    and "broadcast_message net ctx w m s = (sent_count, ctx', w')"
  shows "sent w' = sent w @ new_events w w' \<and>
     closed w' = closed w \<and>
     length (new_events w w') = length (broadcast_targets ctx s) \<and>
     (\<forall>e \<in> set (new_events w w'). ev_socket e \<noteq> s) \<and>
     (\<forall>i < MAX_CLIENTS. active (clients ctx ! i) \<and> socket_fd (clients ctx ! i) \<noteq> s
        \<longleftrightarrow> i \<in> set (broadcast_targets ctx s)) \<and>
     (\<forall>k < length (broadcast_targets ctx s).
        ev_socket (new_events w w' ! k) = socket_fd (clients ctx ! (broadcast_targets ctx s ! k)) \<and>
        ev_data (new_events w w' ! k) = struct_bytes m \<and>
        ev_result (new_events w w' ! k) =
          net (length (sent w) + k) (ev_socket (new_events w w' ! k)) \<and>
        clients ctx' ! (broadcast_targets ctx s ! k) =
          (if ev_result (new_events w w' ! k) > 0 then clients ctx ! (broadcast_targets ctx s ! k)
           else (clients ctx ! (broadcast_targets ctx s ! k))\<lparr>active := False\<rparr>)) \<and>
     sent_count = int (length (broadcast_targets ctx s))
        - int (length (filter (\<lambda>e. ev_result e \<le> 0) (new_events w w'))) \<and>
     (\<forall>i < MAX_CLIENTS. i \<notin> set (broadcast_targets ctx s) \<longrightarrow> clients ctx' ! i = clients ctx ! i) \<and>
     length (clients ctx') = MAX_CLIENTS \<and>
     client_count ctx' = client_count ctx \<and> running ctx' = running ctx \<and>
     server_socket ctx' = server_socket ctx"
  by (intro conjI) (rule broadcast_message_effect [OF assms])+

section \<open>Properties of removal\<close>

lemma broadcast_message_slot:
  assumes "server_context_ok ctx" and "chat_message_ok m"
    and "broadcast_message net ctx w m s = (n, ctx', w')" and "i < MAX_CLIENTS"
  shows "\<exists>k. clients ctx' ! i =
     (if broadcast_target (clients ctx) s i \<and> net k (socket_fd (clients ctx ! i)) \<le> 0
      then (clients ctx ! i)\<lparr>active := False\<rparr> else clients ctx ! i)"
proof (cases "i \<in> set (broadcast_targets ctx s)")
  case False
  then have "\<not> broadcast_target (clients ctx) s i"
    using assms(4) by (simp add: broadcast_targets_def)
  moreover have "clients ctx' ! i = clients ctx ! i"
    using False broadcast_message_effect(8) [OF assms(1,2,3)] assms(4) by blast
  ultimately show ?thesis by simp
next
  case True
  let ?tg = "broadcast_targets ctx s"
  let ?evs = "new_events w w'"
  note k = broadcast_message_effect(6) [OF assms(1,2,3)]
  from True obtain j where j: "j < length ?tg" "?tg ! j = i"
    unfolding in_set_conv_nth by blast
  have t: "broadcast_target (clients ctx) s i"
    using True by (simp add: broadcast_targets_def)
  note kj = k [rule_format, OF j(1), unfolded j(2)]
  have "clients ctx' ! i =
     (if broadcast_target (clients ctx) s i \<and>
         net (length (sent w) + j) (socket_fd (clients ctx ! i)) \<le> 0
      then (clients ctx ! i)\<lparr>active := False\<rparr> else clients ctx ! i)"
    using kj t by (simp add: not_less)
  then show ?thesis ..
qed

lemma broadcast_message_frame:
  assumes "server_context_ok ctx" and "chat_message_ok m"
    and "broadcast_message net ctx w m s = (n, ctx', w')"
  shows "length (clients ctx') = MAX_CLIENTS" and "client_count ctx' = client_count ctx"
    and "running ctx' = running ctx" and "server_socket ctx' = server_socket ctx"
    and "closed w' = closed w"
  by (rule broadcast_message_effect [OF assms])+

lemma fst_remove_slot: "fst (remove_slot net now ctx w s i) = 0"
  by (simp add: remove_slot_def Let_def split: prod.splits)

lemma remove_slot_effect:
  assumes "server_context_ok ctx" and "i < MAX_CLIENTS"
    and "socket_fd (clients ctx ! i) = s"
    and "remove_slot net now ctx w s i = (r, ctx1, w1)"
  shows "r = 0" and "client_count ctx1 = client_count ctx - 1"
    and "length (clients ctx1) = MAX_CLIENTS"
    and "\<not> active (clients ctx1 ! i)"
    and "running ctx1 = running ctx"
    and "\<forall>j<MAX_CLIENTS. j \<noteq> i \<longrightarrow>
           (\<exists>k. clients ctx1 ! j =
              (if \<not> disconnect_notified (clients ctx ! i) \<and> active (clients ctx ! j) \<and>
                  socket_fd (clients ctx ! j) \<noteq> s \<and> net k (socket_fd (clients ctx ! j)) \<le> 0
               then (clients ctx ! j)\<lparr>active := False\<rparr> else clients ctx ! j))"
proof -
  have len: "length (clients ctx) = MAX_CLIENTS"
    using assms(1) by (simp add: server_context_ok_def)
  let ?m = "init_message MSG_NOTIFICATION (Some (ascii ''Sistema''))
              (Some (disconnect_text (username (clients ctx ! i)))) now"
  let ?ctx' = "ctx\<lparr>clients := (clients ctx)[i := (clients ctx ! i)\<lparr>disconnect_notified := True\<rparr>]\<rparr>"
  let ?b = "broadcast_message net ?ctx' w ?m s"
  define ctxa where "ctxa = (if \<not> disconnect_notified (clients ctx ! i) then fst (snd ?b) else ctx)"
  define wa where "wa = (if \<not> disconnect_notified (clients ctx ! i) then snd (snd ?b) else w)"
  have ok': "server_context_ok ?ctx'" by (simp add: server_context_ok_def len)
  have beq: "?b = (fst ?b, fst (snd ?b), snd (snd ?b))" by simp
  note fr = broadcast_message_frame [OF ok' init_message_ok beq]
  have sl: "\<exists>k. clients (fst (snd ?b)) ! j =
     (if broadcast_target (clients ?ctx') s j \<and> net k (socket_fd (clients ?ctx' ! j)) \<le> 0
      then (clients ?ctx' ! j)\<lparr>active := False\<rparr> else clients ?ctx' ! j)" if "j < MAX_CLIENTS" for j
    by (rule broadcast_message_slot [OF ok' init_message_ok beq that])
  have res: "(r, ctx1, w1) =
     (0, ctxa\<lparr>clients := (clients ctxa)
            [i := (clients ctxa ! i)\<lparr>active := False,
                   socket_fd := snd (SAFE_CLOSE wa (socket_fd (clients ctxa ! i)))\<rparr>],
          client_count := client_count ctxa - 1\<rparr>,
      fst (SAFE_CLOSE wa (socket_fd (clients ctxa ! i))))"
    unfolding assms(4) [symmetric] ctxa_def wa_def
    by (simp add: remove_slot_def Let_def split: prod.splits)
  have la: "length (clients ctxa) = MAX_CLIENTS"
    using fr(1) len by (simp add: ctxa_def)
  have ca: "client_count ctxa = client_count ctx" "running ctxa = running ctx"
    using fr(2,3) by (simp_all add: ctxa_def)
  show "r = 0" using res by simp
  show "client_count ctx1 = client_count ctx - 1" using res ca by simp
  show "length (clients ctx1) = MAX_CLIENTS" using res la by simp
  show "\<not> active (clients ctx1 ! i)" using res la assms(2) by simp
  show "running ctx1 = running ctx" using res ca by simp
  show "\<forall>j<MAX_CLIENTS. j \<noteq> i \<longrightarrow>
           (\<exists>k. clients ctx1 ! j =
              (if \<not> disconnect_notified (clients ctx ! i) \<and> active (clients ctx ! j) \<and>
                  socket_fd (clients ctx ! j) \<noteq> s \<and> net k (socket_fd (clients ctx ! j)) \<le> 0
               then (clients ctx ! j)\<lparr>active := False\<rparr> else clients ctx ! j))"
  proof (intro allI impI)
    fix j assume j: "j < MAX_CLIENTS" "j \<noteq> i"
    have 1: "clients ctx1 ! j = clients ctxa ! j" using res j by simp
    have 2: "clients ?ctx' ! j = clients ctx ! j" using j by simp
    show "\<exists>k. clients ctx1 ! j =
              (if \<not> disconnect_notified (clients ctx ! i) \<and> active (clients ctx ! j) \<and>
                  socket_fd (clients ctx ! j) \<noteq> s \<and> net k (socket_fd (clients ctx ! j)) \<le> 0
               then (clients ctx ! j)\<lparr>active := False\<rparr> else clients ctx ! j)"
    proof (cases "disconnect_notified (clients ctx ! i)")
      case True
      then show ?thesis using 1 by (simp add: ctxa_def)
    next
      case False
      then have 3: "clients ctx1 ! j = clients (fst (snd ?b)) ! j" using 1 by (simp add: ctxa_def)
      from sl [OF j(1)] obtain k where
        "clients (fst (snd ?b)) ! j =
           (if broadcast_target (clients ?ctx') s j \<and> net k (socket_fd (clients ctx ! j)) \<le> 0
            then (clients ctx ! j)\<lparr>active := False\<rparr> else clients ctx ! j)"
        unfolding 2 by blast
      then have "clients ctx1 ! j =
              (if \<not> disconnect_notified (clients ctx ! i) \<and> active (clients ctx ! j) \<and>
                  socket_fd (clients ctx ! j) \<noteq> s \<and> net k (socket_fd (clients ctx ! j)) \<le> 0
               then (clients ctx ! j)\<lparr>active := False\<rparr> else clients ctx ! j)"
        using False 2 3 by (simp add: broadcast_target_def)
      then show ?thesis ..
    qed
  qed
qed

lemma sent_SAFE_CLOSE [simp]: "sent (fst (SAFE_CLOSE w fd)) = sent w"
  by (simp add: SAFE_CLOSE_def)

lemma broadcast_targets_flag:
  assumes "i < length (clients ctx)"
  shows "broadcast_targets
           (ctx\<lparr>clients := (clients ctx)[i := (clients ctx ! i)\<lparr>disconnect_notified := True\<rparr>]\<rparr>) s
         = broadcast_targets ctx s"
  unfolding broadcast_targets_def
proof (rule filter_cong [OF refl])
  fix j
  show "broadcast_target
          (clients (ctx\<lparr>clients := (clients ctx)[i := (clients ctx ! i)\<lparr>disconnect_notified := True\<rparr>]\<rparr>))
          s j = broadcast_target (clients ctx) s j"
    using assms by (cases "j = i") (simp_all add: broadcast_target_def)
qed

lemma remove_slot_sends:
  assumes "server_context_ok ctx" and "i < MAX_CLIENTS"
    and "socket_fd (clients ctx ! i) = s"
    and "remove_slot net now ctx w s i = (r, ctx1, w1)"
  shows "sent w1 = sent w @ new_events w w1"
    and "length (new_events w w1) = length (notice_targets ctx i s)"
    and "\<forall>k < length (notice_targets ctx i s).
           ev_socket (new_events w w1 ! k) = socket_fd (clients ctx ! (notice_targets ctx i s ! k)) \<and>
           ev_data (new_events w w1 ! k) =
             struct_bytes (init_message MSG_NOTIFICATION (Some (ascii ''Sistema''))
                             (Some (disconnect_text (username (clients ctx ! i)))) now) \<and>
           ev_result (new_events w w1 ! k) =
             net (length (sent w) + k) (ev_socket (new_events w w1 ! k)) \<and>
           clients ctx1 ! (notice_targets ctx i s ! k) =
             (if ev_result (new_events w w1 ! k) > 0 then clients ctx ! (notice_targets ctx i s ! k)
              else (clients ctx ! (notice_targets ctx i s ! k))\<lparr>active := False\<rparr>)"
    and "\<forall>j<MAX_CLIENTS. j \<noteq> i \<and> j \<notin> set (notice_targets ctx i s) \<longrightarrow>
           clients ctx1 ! j = clients ctx ! j"
    and "i \<notin> set (notice_targets ctx i s)"
proof -
  have len: "length (clients ctx) = MAX_CLIENTS"
    using assms(1) by (simp add: server_context_ok_def)
  let ?m = "init_message MSG_NOTIFICATION (Some (ascii ''Sistema''))
              (Some (disconnect_text (username (clients ctx ! i)))) now"
  let ?ctx' = "ctx\<lparr>clients := (clients ctx)[i := (clients ctx ! i)\<lparr>disconnect_notified := True\<rparr>]\<rparr>"
  let ?b = "broadcast_message net ?ctx' w ?m s"
  let ?T = "notice_targets ctx i s"
  define ctxa where "ctxa = (if \<not> disconnect_notified (clients ctx ! i) then fst (snd ?b) else ctx)"
  define wa where "wa = (if \<not> disconnect_notified (clients ctx ! i) then snd (snd ?b) else w)"
  have ok': "server_context_ok ?ctx'" by (simp add: server_context_ok_def len)
  have beq: "?b = (fst ?b, fst (snd ?b), snd (snd ?b))" by simp
  note ef = broadcast_message_effect [OF ok' init_message_ok beq]
  have tg: "broadcast_targets ?ctx' s = broadcast_targets ctx s"
    using assms(2) len by (intro broadcast_targets_flag) simp
  have res: "(r, ctx1, w1) =
     (0, ctxa\<lparr>clients := (clients ctxa)
            [i := (clients ctxa ! i)\<lparr>active := False,
                   socket_fd := snd (SAFE_CLOSE wa (socket_fd (clients ctxa ! i)))\<rparr>],
          client_count := client_count ctxa - 1\<rparr>,
      fst (SAFE_CLOSE wa (socket_fd (clients ctxa ! i))))"
    unfolding assms(4) [symmetric] ctxa_def wa_def
    by (simp add: remove_slot_def Let_def split: prod.splits)
  have sw: "sent w1 = sent wa" using res by simp
  have ne: "new_events w w1 = new_events w wa" by (simp add: new_events_def sw)
  have other: "clients ctx1 ! j = clients ctxa ! j" if "j \<noteq> i" for j
    using res that by simp
  have notin: "i \<notin> set (broadcast_targets ctx s)"
    using assms(3) by (simp add: broadcast_targets_def broadcast_target_def)
  show "i \<notin> set ?T" using notin by (simp add: notice_targets_def)
  show "sent w1 = sent w @ new_events w w1"
  proof (cases "disconnect_notified (clients ctx ! i)")
    case True
    then show ?thesis by (simp add: sw wa_def new_events_def)
  next
    case False
    then show ?thesis using ef(1) by (simp add: sw ne wa_def)
  qed
  show "length (new_events w w1) = length ?T"
  proof (cases "disconnect_notified (clients ctx ! i)")
    case True
    then show ?thesis by (simp add: sw wa_def new_events_def notice_targets_def)
  next
    case False
    then show ?thesis using ef(3) by (simp add: ne wa_def notice_targets_def tg)
  qed
  show "\<forall>k < length ?T.
           ev_socket (new_events w w1 ! k) = socket_fd (clients ctx ! (?T ! k)) \<and>
           ev_data (new_events w w1 ! k) = struct_bytes ?m \<and>
           ev_result (new_events w w1 ! k) =
             net (length (sent w) + k) (ev_socket (new_events w w1 ! k)) \<and>
           clients ctx1 ! (?T ! k) =
             (if ev_result (new_events w w1 ! k) > 0 then clients ctx ! (?T ! k)
              else (clients ctx ! (?T ! k))\<lparr>active := False\<rparr>)"
  proof (intro allI impI)
    fix k assume k: "k < length ?T"
    then have nn: "\<not> disconnect_notified (clients ctx ! i)"
      by (auto simp: notice_targets_def split: if_splits)
    then have T: "?T = broadcast_targets ctx s" by (simp add: notice_targets_def)
    have k': "k < length (broadcast_targets ?ctx' s)" using k by (simp add: T tg)
    have "broadcast_targets ctx s ! k \<in> set (broadcast_targets ctx s)"
      using k by (simp add: T)
    then have ki: "broadcast_targets ctx s ! k \<noteq> i" using notin by metis
    have wa: "wa = snd (snd ?b)" and ca: "ctxa = fst (snd ?b)"
      using nn by (simp_all add: wa_def ctxa_def)
    have same: "clients ?ctx' ! (broadcast_targets ctx s ! k) = clients ctx ! (broadcast_targets ctx s ! k)"
      using ki by simp
    note e = ef(6) [rule_format, OF k', unfolded tg same, folded wa ca]
    show "ev_socket (new_events w w1 ! k) = socket_fd (clients ctx ! (?T ! k)) \<and>
           ev_data (new_events w w1 ! k) = struct_bytes ?m \<and>
           ev_result (new_events w w1 ! k) =
             net (length (sent w) + k) (ev_socket (new_events w w1 ! k)) \<and>
           clients ctx1 ! (?T ! k) =
             (if ev_result (new_events w w1 ! k) > 0 then clients ctx ! (?T ! k)
              else (clients ctx ! (?T ! k))\<lparr>active := False\<rparr>)"
      unfolding T ne other [OF ki] using e by blast
  qed
  show "\<forall>j<MAX_CLIENTS. j \<noteq> i \<and> j \<notin> set ?T \<longrightarrow> clients ctx1 ! j = clients ctx ! j"
  proof (intro allI impI)
    fix j assume j: "j < MAX_CLIENTS" and a: "j \<noteq> i \<and> j \<notin> set ?T"
    then have ji: "j \<noteq> i" by simp
    show "clients ctx1 ! j = clients ctx ! j"
    proof (cases "disconnect_notified (clients ctx ! i)")
      case True
      then show ?thesis using other [OF ji] by (simp add: ctxa_def)
    next
      case False
      then have "j \<notin> set (broadcast_targets ?ctx' s)"
        using a by (simp add: notice_targets_def tg)
      then have "clients (fst (snd ?b)) ! j = clients ?ctx' ! j"
        using ef(8) j by blast
      then show ?thesis using other [OF ji] False ji by (simp add: ctxa_def)
    qed
  qed
qed

lemma remove_client_success:
  assumes "running ctx" and "remove_client net now ctx w s = (0, ctx1, w1)"
  shows "\<exists>i<MAX_CLIENTS. active (clients ctx ! i) \<and> socket_fd (clients ctx ! i) = s \<and>
     (\<forall>j<i. \<not> (active (clients ctx ! j) \<and> socket_fd (clients ctx ! j) = s)) \<and>
     remove_slot net now ctx w s i = (0, ctx1, w1)"
proof -
  let ?P = "\<lambda>i. active (clients ctx ! i) \<and> socket_fd (clients ctx ! i) = s"
  have r: "remove_loop net now ctx w s [0..<MAX_CLIENTS] = (0, ctx1, w1)"
    using assms by (simp add: remove_client_def)
  show ?thesis
  proof (cases "List.find ?P [0..<MAX_CLIENTS]")
    case None
    then show ?thesis using r by (simp add: remove_loop_find)
  next
    case (Some i)
    then have "i < MAX_CLIENTS \<and> ?P i \<and> (\<forall>j<i. \<not> ?P j)"
      using find_upt_Some [of ?P MAX_CLIENTS i] by simp
    moreover have "remove_slot net now ctx w s i = (0, ctx1, w1)"
      using r Some by (simp add: remove_loop_find)
    ultimately show ?thesis by blast
  qed
qed

lemma remove_client_found:
  assumes "running ctx" and "i < MAX_CLIENTS"
    and "active (clients ctx ! i)" and "socket_fd (clients ctx ! i) = s"
    and "\<forall>j<i. \<not> (active (clients ctx ! j) \<and> socket_fd (clients ctx ! j) = s)"
  shows "remove_client net now ctx w s = remove_slot net now ctx w s i"
proof -
  let ?P = "\<lambda>i. active (clients ctx ! i) \<and> socket_fd (clients ctx ! i) = s"
  have "List.find ?P [0..<MAX_CLIENTS] = Some i"
    unfolding find_upt_Some using assms by blast
  then show ?thesis using assms(1) by (simp add: remove_client_def remove_loop_find)
qed

lemma length_filter_all:
  "length (filter P xs) = length xs \<Longrightarrow> \<forall>x \<in> set xs. P x"
proof (induction xs)
  case Nil
  then show ?case by simp
next
  case (Cons x xs)
  have le: "length (filter P xs) \<le> length xs" by (rule length_filter_le)
  show ?case
  proof (cases "P x")
    case True
    then have "length (filter P xs) = length xs" using Cons.prems by simp
    then have "\<forall>y \<in> set xs. P y" by (rule Cons.IH)
    then show ?thesis using True by simp
  next
    case False
    then have "length (filter P xs) = Suc (length xs)" using Cons.prems by simp
    then show ?thesis using le by simp
  qed
qed

lemma length_filter_update:
  "i < length xs \<Longrightarrow> P (xs ! i) \<Longrightarrow> \<not> P y \<Longrightarrow>
     Suc (length (filter P (xs[i := y]))) = length (filter P xs)"
proof (induction xs arbitrary: i)
  case Nil
  then show ?case by simp
next
  case (Cons x xs)
  then show ?case by (cases i) auto
qed

lemma active_count_full:
  assumes "server_context_ok ctx" and "active_count ctx = int MAX_CLIENTS"
  shows "\<forall>i<MAX_CLIENTS. active (clients ctx ! i)"
proof -
  have len: "length (clients ctx) = MAX_CLIENTS"
    using assms(1) by (simp add: server_context_ok_def)
  then have "length (filter active (clients ctx)) = length (clients ctx)"
    using assms(2) by (simp add: active_count_def)
  then have "\<forall>c \<in> set (clients ctx). active c" by (rule length_filter_all)
  then show ?thesis using len by simp
qed

lemma add_client_full:
  assumes "\<forall>i<MAX_CLIENTS. active (clients ctx ! i)"
  shows "add_client ctx s a u t = (- 1, ctx)"
proof -
  have "find_free_slot (clients ctx) [0..<MAX_CLIENTS] = - 1"
    using assms by (simp add: find_free_slot_full)
  then show ?thesis by (simp add: add_client_def)
qed

lemma add_client_at:
  assumes "client_count ctx < int MAX_CLIENTS" and "i < MAX_CLIENTS"
    and "\<not> active (clients ctx ! i)" and "\<forall>j<i. active (clients ctx ! j)"
  shows "fst (add_client ctx s a u t) = int i"
proof -
  have "find_free_slot (clients ctx) [0..<MAX_CLIENTS] = int i"
    using assms by (simp add: find_free_slot_index)
  then show ?thesis using assms(1) by (simp add: add_client_def Let_def)
qed

lemma add_client_succeeds:
  assumes "client_count ctx < int MAX_CLIENTS" and "i < MAX_CLIENTS"
    and "\<not> active (clients ctx ! i)"
  shows "fst (add_client ctx s a u t) \<ge> 0"
proof -
  have "find_free_slot (clients ctx) [0..<MAX_CLIENTS] \<noteq> - 1"
    using assms by (auto simp add: find_free_slot_full)
  then obtain k where "find_free_slot (clients ctx) [0..<MAX_CLIENTS] = int k"
    using find_free_slot_range [of "clients ctx" MAX_CLIENTS] by blast
  then show ?thesis using assms(1) by (simp add: add_client_def Let_def)
qed

lemma notice_targets_full:
  assumes "\<forall>j<MAX_CLIENTS. active (clients ctx ! j)"
  shows "notice_targets ctx i s =
     (if disconnect_notified (clients ctx ! i) then []
      else filter (\<lambda>j. socket_fd (clients ctx ! j) \<noteq> s) [0..<MAX_CLIENTS])"
proof -
  have "filter (broadcast_target (clients ctx) s) [0..<MAX_CLIENTS] =
      filter (\<lambda>j. socket_fd (clients ctx ! j) \<noteq> s) [0..<MAX_CLIENTS]"
    using assms by (intro filter_cong) (simp_all add: broadcast_target_def)
  then show ?thesis by (simp add: notice_targets_def broadcast_targets_def)
qed

lemma registry_capacity:
  assumes "server_context_ok ctx" and "running ctx"
    and "active_count ctx = int MAX_CLIENTS" and "client_count ctx = int MAX_CLIENTS"
    and "remove_client net now ctx w s = (0, ctx1, w1)"
  shows "add_client ctx s' a u t = (- 1, ctx) \<and>
     (\<exists>i<MAX_CLIENTS.
        active (clients ctx ! i) \<and> socket_fd (clients ctx ! i) = s \<and>
        \<not> active (clients ctx1 ! i) \<and>
        notice_targets ctx i s =
          (if disconnect_notified (clients ctx ! i) then []
           else filter (\<lambda>j. socket_fd (clients ctx ! j) \<noteq> s) [0..<MAX_CLIENTS]) \<and>
        sent w1 = sent w @ new_events w w1 \<and>
        length (new_events w w1) = length (notice_targets ctx i s) \<and>
        (\<forall>k < length (notice_targets ctx i s).
           ev_socket (new_events w w1 ! k) = socket_fd (clients ctx ! (notice_targets ctx i s ! k)) \<and>
           ev_data (new_events w w1 ! k) =
             struct_bytes (init_message MSG_NOTIFICATION (Some (ascii ''Sistema''))
                             (Some (disconnect_text (username (clients ctx ! i)))) now) \<and>
           ev_result (new_events w w1 ! k) =
             net (length (sent w) + k) (ev_socket (new_events w w1 ! k)) \<and>
           clients ctx1 ! (notice_targets ctx i s ! k) =
             (if ev_result (new_events w w1 ! k) > 0 then clients ctx ! (notice_targets ctx i s ! k)
              else (clients ctx ! (notice_targets ctx i s ! k))\<lparr>active := False\<rparr>)) \<and>
        (\<forall>j<MAX_CLIENTS. j \<noteq> i \<and> j \<notin> set (notice_targets ctx i s) \<longrightarrow>
           clients ctx1 ! j = clients ctx ! j) \<and>
        ((\<forall>e \<in> set (new_events w w1). ev_result e > 0) \<longrightarrow>
           (\<forall>j<MAX_CLIENTS. j \<noteq> i \<longrightarrow> clients ctx1 ! j = clients ctx ! j) \<and>
           active_count ctx1 = active_count ctx - 1 \<and>
           client_count ctx1 = client_count ctx - 1 \<and>
           fst (add_client ctx1 s' a u t) = int i)) \<and>
     fst (add_client ctx1 s' a u t) \<ge> 0"
proof -
  have len: "length (clients ctx) = MAX_CLIENTS"
    using assms(1) by (simp add: server_context_ok_def)
  have full: "\<forall>i<MAX_CLIENTS. active (clients ctx ! i)"
    by (rule active_count_full [OF assms(1,3)])
  have A: "add_client ctx s' a u t = (- 1, ctx)"
    by (rule add_client_full [OF full])
  from remove_client_success [OF assms(2,5)]
  obtain i where i: "i < MAX_CLIENTS" "active (clients ctx ! i)" "socket_fd (clients ctx ! i) = s"
    and rs: "remove_slot net now ctx w s i = (0, ctx1, w1)"
    by blast
  let ?T = "notice_targets ctx i s"
  let ?E = "new_events w w1"
  note e = remove_slot_effect [OF assms(1) i(1) i(3) rs]
  note v = remove_slot_sends [OF assms(1) i(1) i(3) rs]
  note T = notice_targets_full [OF full, of i s]
  have cnt: "client_count ctx1 = client_count ctx - 1" by (rule e(2))
  have lt: "client_count ctx1 < int MAX_CLIENTS" using cnt assms(4) by simp
  have D: "fst (add_client ctx1 s' a u t) \<ge> 0"
    by (rule add_client_succeeds [OF lt i(1) e(4)])
  have C: "(\<forall>j<MAX_CLIENTS. j \<noteq> i \<longrightarrow> clients ctx1 ! j = clients ctx ! j) \<and>
           active_count ctx1 = active_count ctx - 1 \<and>
           client_count ctx1 = client_count ctx - 1 \<and>
           fst (add_client ctx1 s' a u t) = int i" if ok: "\<forall>e \<in> set ?E. ev_result e > 0"
  proof -
    have same: "\<forall>j<MAX_CLIENTS. j \<noteq> i \<longrightarrow> clients ctx1 ! j = clients ctx ! j"
    proof (intro allI impI)
      fix j assume j: "j < MAX_CLIENTS" "j \<noteq> i"
      show "clients ctx1 ! j = clients ctx ! j"
      proof (cases "j \<in> set ?T")
        case False
        then show ?thesis using v(4) j by blast
      next
        case True
        then obtain k where k: "k < length ?T" "?T ! k = j"
          unfolding in_set_conv_nth by blast
        then have "?E ! k \<in> set ?E" using v(2) by simp
        then have "ev_result (?E ! k) > 0" using ok by blast
        then show ?thesis using v(3) [rule_format, OF k(1)] k(2) by simp
      qed
    qed
    have "clients ctx1 = (clients ctx)[i := clients ctx1 ! i]"
    proof (rule nth_equalityI)
      show "length (clients ctx1) = length ((clients ctx)[i := clients ctx1 ! i])"
        using e(3) len by simp
    next
      fix j assume "j < length (clients ctx1)"
      then have "j < MAX_CLIENTS" using e(3) by simp
      then show "clients ctx1 ! j = (clients ctx)[i := clients ctx1 ! i] ! j"
        using same len by (cases "j = i") simp_all
    qed
    then have "length (filter active (clients ctx1)) =
        length (filter active ((clients ctx)[i := clients ctx1 ! i]))"
      by simp
    moreover have "Suc (length (filter active ((clients ctx)[i := clients ctx1 ! i]))) =
        length (filter active (clients ctx))"
      using i(1,2) e(4) len by (intro length_filter_update) simp_all
    ultimately have ac: "active_count ctx1 = active_count ctx - 1"
      by (simp add: active_count_def)
    have "\<forall>j<i. active (clients ctx1 ! j)"
      using same full i(1) by simp
    then have "fst (add_client ctx1 s' a u t) = int i"
      by (intro add_client_at [OF lt i(1) e(4)])
    then show ?thesis using same ac cnt by blast
  qed
  have C': "(\<forall>e \<in> set ?E. ev_result e > 0) \<longrightarrow>
           (\<forall>j<MAX_CLIENTS. j \<noteq> i \<longrightarrow> clients ctx1 ! j = clients ctx ! j) \<and>
           active_count ctx1 = active_count ctx - 1 \<and>
           client_count ctx1 = client_count ctx - 1 \<and>
           fst (add_client ctx1 s' a u t) = int i"
    using C by blast
  have B: "active (clients ctx ! i) \<and> socket_fd (clients ctx ! i) = s \<and>
        \<not> active (clients ctx1 ! i) \<and>
        ?T = (if disconnect_notified (clients ctx ! i) then []
           else filter (\<lambda>j. socket_fd (clients ctx ! j) \<noteq> s) [0..<MAX_CLIENTS]) \<and>
        sent w1 = sent w @ ?E \<and>
        length ?E = length ?T \<and>
        (\<forall>k < length ?T.
           ev_socket (?E ! k) = socket_fd (clients ctx ! (?T ! k)) \<and>
           ev_data (?E ! k) =
             struct_bytes (init_message MSG_NOTIFICATION (Some (ascii ''Sistema''))
                             (Some (disconnect_text (username (clients ctx ! i)))) now) \<and>
           ev_result (?E ! k) = net (length (sent w) + k) (ev_socket (?E ! k)) \<and>
           clients ctx1 ! (?T ! k) =
             (if ev_result (?E ! k) > 0 then clients ctx ! (?T ! k)
              else (clients ctx ! (?T ! k))\<lparr>active := False\<rparr>)) \<and>
        (\<forall>j<MAX_CLIENTS. j \<noteq> i \<and> j \<notin> set ?T \<longrightarrow> clients ctx1 ! j = clients ctx ! j) \<and>
        ((\<forall>e \<in> set ?E. ev_result e > 0) \<longrightarrow>
           (\<forall>j<MAX_CLIENTS. j \<noteq> i \<longrightarrow> clients ctx1 ! j = clients ctx ! j) \<and>
           active_count ctx1 = active_count ctx - 1 \<and>
           client_count ctx1 = client_count ctx - 1 \<and>
           fst (add_client ctx1 s' a u t) = int i)"
    by (intro conjI) (rule i(2) i(3) e(4) T v(1) v(2) v(3) v(4) C')+
  show ?thesis
    using A D B i(1) by blast
qed

section \<open>The concrete registries\<close>

lemma init_server_context_free:
  "init_server_context =
     \<lparr>clients = replicate MAX_CLIENTS free_slot, client_count = 0, server_socket = - 1,
      running = True\<rparr>"
  by (simp add: init_server_context_def free_slot_def)

lemma replicate_MAX_CLIENTS:
  "replicate MAX_CLIENTS x = x # x # replicate 48 x"
proof -
  have m: "MAX_CLIENTS = Suc (Suc 48)" by (simp add: MAX_CLIENTS_def)
  show ?thesis unfolding m by (simp only: replicate.simps)
qed

lemma registry_alice_eq:
  "registry_alice =
     \<lparr>clients = alice_slot # free_slot # replicate 48 free_slot, client_count = 1,
      server_socket = - 1, running = True\<rparr>"
proof -
  let ?ctx = init_server_context
  have f: "find_free_slot (clients ?ctx) [0..<MAX_CLIENTS] = int 0"
    unfolding find_free_slot_index
    by (simp add: init_server_context_free replicate_MAX_CLIENTS free_slot_def MAX_CLIENTS_def)
  have c: "client_count ?ctx = 0" by (simp add: init_server_context_free)
  show ?thesis
    unfolding registry_alice_def add_client_def
    using f c
    by (simp add: Let_def MAX_CLIENTS_def alice_slot_def init_server_context_free
        replicate_MAX_CLIENTS [unfolded MAX_CLIENTS_def])
qed

lemma registry_pair_eq:
  "registry_pair =
     \<lparr>clients = alice_slot # bob_slot # replicate 48 free_slot, client_count = 2,
      server_socket = - 1, running = True\<rparr>"
proof -
  let ?ctx = registry_alice
  have f: "find_free_slot (clients ?ctx) [0..<MAX_CLIENTS] = int 1"
    unfolding find_free_slot_index
    by (simp add: registry_alice_eq free_slot_def alice_slot_def MAX_CLIENTS_def)
  have c: "client_count ?ctx = 1" by (simp add: registry_alice_eq)
  show ?thesis
    unfolding registry_pair_def add_client_def
    using f c
    by (simp add: Let_def MAX_CLIENTS_def bob_slot_def registry_alice_eq)
qed

lemma small_registry_tail:
  assumes "2 \<le> i" and "i < MAX_CLIENTS"
  shows "(a # b # replicate 48 free_slot) ! i = free_slot"
proof -
  obtain j where j: "i = Suc (Suc j)" using assms(1) by (metis Suc_le_D Suc_le_mono numeral_2_eq_2)
  then have "j < 48" using assms(2) by (simp add: MAX_CLIENTS_def)
  then show ?thesis by (simp add: j)
qed

lemma upt_MAX_CLIENTS: "[0..<MAX_CLIENTS] = 0 # 1 # [2..<MAX_CLIENTS]"
  by (simp add: MAX_CLIENTS_def upt_conv_Cons)

lemma broadcast_targets_small:
  assumes "clients ctx = a # b # replicate 48 free_slot"
  shows "broadcast_targets ctx s =
     (if active a \<and> socket_fd a \<noteq> s then [0] else []) @
     (if active b \<and> socket_fd b \<noteq> s then [1] else [])"
proof -
  have "\<not> broadcast_target (clients ctx) s x" if "x \<in> set [2..<MAX_CLIENTS]" for x
  proof -
    have "2 \<le> x" "x < MAX_CLIENTS" using that by simp_all
    then have "clients ctx ! x = free_slot"
      unfolding assms by (rule small_registry_tail)
    then show ?thesis by (simp add: broadcast_target_def free_slot_def)
  qed
  then have "filter (broadcast_target (clients ctx) s) [2..<MAX_CLIENTS] = []"
    unfolding filter_empty_conv by blast
  then show ?thesis
    by (simp add: broadcast_targets_def upt_MAX_CLIENTS assms broadcast_target_def)
qed

lemma registry_pair_ok: "server_context_ok registry_pair"
  by (simp add: server_context_ok_def registry_pair_eq MAX_CLIENTS_def)

lemma registry_alice_ok: "server_context_ok registry_alice"
  by (simp add: server_context_ok_def registry_alice_eq MAX_CLIENTS_def)

section \<open>Claims about the registry\<close>

text \<open>
  Claim C10. While the flag \<open>running\<close> is clear, \<open>remove_client\<close> returns 0 and
  changes nothing: the registry, with every slot, flag, descriptor and \<open>client_count\<close>,
  is the one it was given, and nothing is sent or closed.
\<close>

theorem remove_client_during_shutdown:
  "\<not> running ctx \<Longrightarrow> remove_client net now ctx w client_socket = (0, ctx, w)"
  by (rule remove_client_not_running)

theorem remove_client_during_shutdown_witness:
  "active (clients (registry_pair\<lparr>running := False\<rparr>) ! 1) \<and>
   socket_fd (clients (registry_pair\<lparr>running := False\<rparr>) ! 1) = 5 \<and>
   remove_client net_ok 0 (registry_pair\<lparr>running := False\<rparr>) world0 5 =
     (0, registry_pair\<lparr>running := False\<rparr>, world0)"
proof -
  have "\<not> running (registry_pair\<lparr>running := False\<rparr>)" by simp
  then have "remove_client net_ok 0 (registry_pair\<lparr>running := False\<rparr>) world0 5 =
     (0, registry_pair\<lparr>running := False\<rparr>, world0)"
    by (rule remove_client_during_shutdown)
  then show ?thesis
    by (simp add: registry_pair_eq bob_slot_def)
qed

lemma add_client_registry_alice:
  "add_client registry_alice 5 (0, 0) (ascii ''bob'') 0 = (1, registry_pair)"
proof -
  have f: "find_free_slot (clients registry_alice) [0..<MAX_CLIENTS] = int 1"
    unfolding find_free_slot_index
    by (simp add: registry_alice_eq free_slot_def alice_slot_def MAX_CLIENTS_def)
  have c: "client_count registry_alice = 1" by (simp add: registry_alice_eq)
  have "fst (add_client registry_alice 5 (0, 0) (ascii ''bob'') 0) = 1"
    unfolding add_client_def using f c by (simp add: Let_def MAX_CLIENTS_def)
  then show ?thesis
    by (simp add: registry_pair_def prod_eq_iff)
qed

text \<open>
  Claim C9. When \<open>add_client\<close> succeeds, the index it returns is that of a slot that
  was not active while every slot below it was, and the new session is in that slot:
  active, with the given socket, address and time, the notification flag clear and the
  name cut to 31 bytes. No other slot changes and \<open>client_count\<close> grows by one.
\<close>

theorem add_client_lowest_free:
  assumes "server_context_ok ctx" and "add_client ctx s a u t = (r, ctx')" and "r \<ge> 0"
  shows "\<exists>i<MAX_CLIENTS. r = int i \<and>
     \<not> active (clients ctx ! i) \<and> (\<forall>j<i. active (clients ctx ! j)) \<and>
     active (clients ctx' ! i) \<and> socket_fd (clients ctx' ! i) = s \<and>
     address (clients ctx' ! i) = a \<and> connect_time (clients ctx' ! i) = t \<and>
     \<not> disconnect_notified (clients ctx' ! i) \<and>
     c_str (username (clients ctx' ! i)) = take (USERNAME_SIZE - 1) (c_str u) \<and>
     (\<forall>j<MAX_CLIENTS. j \<noteq> i \<longrightarrow> clients ctx' ! j = clients ctx ! j) \<and>
     length (clients ctx') = MAX_CLIENTS \<and>
     client_count ctx' = client_count ctx + 1 \<and>
     running ctx' = running ctx \<and> server_socket ctx' = server_socket ctx"
  by (rule add_client_registers [OF assms])

theorem add_client_lowest_free_witness:
  "add_client registry_alice 5 (0, 0) (ascii ''bob'') 0 = (1, registry_pair) \<and>
   active (clients registry_alice ! 0) \<and> \<not> active (clients registry_alice ! 1) \<and>
   active (clients registry_pair ! 1) \<and> socket_fd (clients registry_pair ! 1) = 5 \<and>
   client_count registry_pair = client_count registry_alice + 1"
proof -
  have r: "(1::int) \<ge> 0" by simp
  from add_client_lowest_free [OF registry_alice_ok add_client_registry_alice r]
  obtain i where "i < MAX_CLIENTS" "1 = int i"
      "\<not> active (clients registry_alice ! i)" "\<forall>j<i. active (clients registry_alice ! j)"
      "active (clients registry_pair ! i)" "socket_fd (clients registry_pair ! i) = 5"
      "client_count registry_pair = client_count registry_alice + 1"
    by blast
  moreover from this have "i = 1" by simp
  ultimately show ?thesis
    using add_client_registry_alice by simp
qed

lemma list_of_length_2: "length xs = 2 \<Longrightarrow> xs = [xs ! 0, xs ! 1]"
  by (cases xs; cases "tl xs") auto

theorem broadcast_message_delivery_witness:
  "fst (broadcast_message (net_down 4) registry_pair world0
          (init_message MSG_CHAT (Some (ascii ''bob'')) (Some (ascii ''hi'')) 0) (- 1)) = 1 \<and>
   map ev_socket (sent (snd (snd (broadcast_message (net_down 4) registry_pair world0
          (init_message MSG_CHAT (Some (ascii ''bob'')) (Some (ascii ''hi'')) 0) (- 1))))) = [4, 5] \<and>
   \<not> active (clients (fst (snd (broadcast_message (net_down 4) registry_pair world0
          (init_message MSG_CHAT (Some (ascii ''bob'')) (Some (ascii ''hi'')) 0) (- 1)))) ! 0) \<and>
   active (clients (fst (snd (broadcast_message (net_down 4) registry_pair world0
          (init_message MSG_CHAT (Some (ascii ''bob'')) (Some (ascii ''hi'')) 0) (- 1)))) ! 1)"
proof -
  let ?m = "init_message MSG_CHAT (Some (ascii ''bob'')) (Some (ascii ''hi'')) 0"
  let ?b = "broadcast_message (net_down 4) registry_pair world0 ?m (- 1)"
  let ?tg = "broadcast_targets registry_pair (- 1)"
  have eq: "?b = (fst ?b, fst (snd ?b), snd (snd ?b))" by simp
  have tg: "?tg = [0, 1]"
    by (simp add: broadcast_targets_small registry_pair_eq alice_slot_def bob_slot_def
        free_slot_def)
  have c0: "clients registry_pair ! 0 = alice_slot" and c1: "clients registry_pair ! 1 = bob_slot"
    by (simp_all add: registry_pair_eq)
  note d = broadcast_message_delivery [OF registry_pair_ok init_message_ok eq]
  define evs where "evs = new_events world0 (snd (snd ?b))"
  have s: "sent (snd (snd ?b)) = sent world0 @ evs"
    and l: "length evs = length ?tg"
    and k: "\<forall>k < length ?tg.
        ev_socket (evs ! k) = socket_fd (clients registry_pair ! (?tg ! k)) \<and>
        ev_data (evs ! k) = struct_bytes ?m \<and>
        ev_result (evs ! k) = net_down 4 (length (sent world0) + k) (ev_socket (evs ! k)) \<and>
        clients (fst (snd ?b)) ! (?tg ! k) =
          (if ev_result (evs ! k) > 0 then clients registry_pair ! (?tg ! k)
           else (clients registry_pair ! (?tg ! k))\<lparr>active := False\<rparr>)"
    and n: "fst ?b = int (length ?tg) - int (length (filter (\<lambda>e. ev_result e \<le> 0) evs))"
    unfolding evs_def using d by blast+
  have l2: "length evs = 2" using l tg by simp
  then have evs: "evs = [evs ! 0, evs ! 1]" by (rule list_of_length_2)
  have k0: "ev_socket (evs ! 0) = 4" "ev_result (evs ! 0) = - 1"
      "clients (fst (snd ?b)) ! 0 = alice_slot\<lparr>active := False\<rparr>"
    using k [rule_format, of 0] l2 tg c0
    by (simp_all add: alice_slot_def net_down_def)
  have k1: "ev_socket (evs ! 1) = 5" "ev_result (evs ! 1) = int sizeof_chat_message"
      "clients (fst (snd ?b)) ! 1 = bob_slot"
    using k [rule_format, of 1] l2 tg c1
    by (simp_all add: bob_slot_def net_down_def sizeof_chat_message_eq)
  note k1' = k1 [unfolded One_nat_def]
  have f: "length (filter (\<lambda>e. ev_result e \<le> 0) evs) = 1"
    by (subst evs) (simp add: k0 k1' sizeof_chat_message_eq)
  have "map ev_socket evs = [4, 5]"
    by (subst evs) (simp add: k0 k1')
  then show ?thesis
    using n f tg s k0(3) k1(3) by (simp add: world0_def bob_slot_def)
qed

lemma registry_full_ok: "server_context_ok registry_full"
  by (simp add: server_context_ok_def registry_full_def)

lemma registry_full_slot: "i < MAX_CLIENTS \<Longrightarrow> clients registry_full ! i = user_slot i"
  by (simp add: registry_full_def)

lemma registry_full_counts:
  "active_count registry_full = int MAX_CLIENTS"
  "client_count registry_full = int MAX_CLIENTS"
  "running registry_full"
proof -
  have "filter active (map user_slot [0..<MAX_CLIENTS]) = map user_slot [0..<MAX_CLIENTS]"
    by (simp add: user_slot_def)
  then show "active_count registry_full = int MAX_CLIENTS"
    by (simp add: active_count_def registry_full_def)
qed (simp_all add: registry_full_def)

text \<open>
  Claim C5, as amended. With the server running and all \<open>MAX_CLIENTS\<close> slots active
  (and counted), \<open>add_client\<close> fails and leaves the registry as it is. A successful
  \<open>remove_client\<close> for the socket \<open>s\<close> then marks the slot \<open>i\<close> of the removed
  session inactive, and \<open>add_client\<close> succeeds again. Unless the notification flag of
  the slot was set already, \<open>remove_client\<close> makes one send of the disconnect
  notification to each slot whose socket is not \<open>s\<close>, in slot order, and these are
  all the sends it makes: the slot of the \<open>k\<close>-th send is left as it was when that send
  returned a positive value and is marked inactive when it did not, and a slot to which
  nothing was sent is left as it was. When none of the sends made fails, the removed slot
  is the only one freed, the number of active slots and \<open>client_count\<close> both drop by
  exactly one, and \<open>add_client\<close> returns the freed slot.
\<close>

theorem registry_capacity_cycle:
  assumes "server_context_ok ctx" and "running ctx"
    and "active_count ctx = int MAX_CLIENTS" and "client_count ctx = int MAX_CLIENTS"
    and "remove_client net now ctx w s = (0, ctx1, w1)"
  shows "add_client ctx s' a u t = (- 1, ctx) \<and>
     (\<exists>i<MAX_CLIENTS.
        active (clients ctx ! i) \<and> socket_fd (clients ctx ! i) = s \<and>
        \<not> active (clients ctx1 ! i) \<and>
        notice_targets ctx i s =
          (if disconnect_notified (clients ctx ! i) then []
           else filter (\<lambda>j. socket_fd (clients ctx ! j) \<noteq> s) [0..<MAX_CLIENTS]) \<and>
        sent w1 = sent w @ new_events w w1 \<and>
        length (new_events w w1) = length (notice_targets ctx i s) \<and>
        (\<forall>k < length (notice_targets ctx i s).
           ev_socket (new_events w w1 ! k) = socket_fd (clients ctx ! (notice_targets ctx i s ! k)) \<and>
           ev_data (new_events w w1 ! k) =
             struct_bytes (init_message MSG_NOTIFICATION (Some (ascii ''Sistema''))
                             (Some (disconnect_text (username (clients ctx ! i)))) now) \<and>
           ev_result (new_events w w1 ! k) =
             net (length (sent w) + k) (ev_socket (new_events w w1 ! k)) \<and>
           clients ctx1 ! (notice_targets ctx i s ! k) =
             (if ev_result (new_events w w1 ! k) > 0 then clients ctx ! (notice_targets ctx i s ! k)
              else (clients ctx ! (notice_targets ctx i s ! k))\<lparr>active := False\<rparr>)) \<and>
        (\<forall>j<MAX_CLIENTS. j \<noteq> i \<and> j \<notin> set (notice_targets ctx i s) \<longrightarrow>
           clients ctx1 ! j = clients ctx ! j) \<and>
        ((\<forall>e \<in> set (new_events w w1). ev_result e > 0) \<longrightarrow>
           (\<forall>j<MAX_CLIENTS. j \<noteq> i \<longrightarrow> clients ctx1 ! j = clients ctx ! j) \<and>
           active_count ctx1 = active_count ctx - 1 \<and>
           client_count ctx1 = client_count ctx - 1 \<and>
           fst (add_client ctx1 s' a u t) = int i)) \<and>
     fst (add_client ctx1 s' a u t) \<ge> 0"
  by (rule registry_capacity [OF assms])

lemma remove_client_registry_full:
  "remove_client net now registry_full w 4 = remove_slot net now registry_full w 4 0"
proof -
  have 0: "(0::nat) < MAX_CLIENTS" by (simp add: MAX_CLIENTS_def)
  show ?thesis
    by (rule remove_client_found [OF registry_full_counts(3) 0])
      (simp_all add: registry_full_slot [OF 0] user_slot_def)
qed

theorem registry_capacity_cycle_witness:
  "add_client registry_full 54 (0, 0) (ascii ''zoe'') 0 = (- 1, registry_full) \<and>
   fst (remove_client net_ok 0 registry_full world0 4) = 0 \<and>
   length (sent (snd (snd (remove_client net_ok 0 registry_full world0 4)))) = 49 \<and>
   client_count (fst (snd (remove_client net_ok 0 registry_full world0 4))) = 49 \<and>
   active_count (fst (snd (remove_client net_ok 0 registry_full world0 4))) = 49 \<and>
   fst (add_client (fst (snd (remove_client net_ok 0 registry_full world0 4))) 54 (0, 0)
          (ascii ''zoe'') 0) = 0"
proof -
  let ?r = "remove_client net_ok 0 registry_full world0 4"
  let ?E = "new_events world0 (snd (snd ?r))"
  have f: "fst ?r = 0"
    by (simp add: remove_client_registry_full fst_remove_slot)
  then have eq: "?r = (0, fst (snd ?r), snd (snd ?r))"
    by (metis prod.collapse)
  from registry_capacity_cycle
    [OF registry_full_ok registry_full_counts(3) registry_full_counts(1,2) eq,
      of 54 "(0, 0)" "ascii ''zoe''" 0]
  obtain i where a: "add_client registry_full 54 (0, 0) (ascii ''zoe'') 0 = (- 1, registry_full)"
    and i: "i < MAX_CLIENTS" "socket_fd (clients registry_full ! i) = 4"
    and T: "notice_targets registry_full i 4 =
          (if disconnect_notified (clients registry_full ! i) then []
           else filter (\<lambda>j. socket_fd (clients registry_full ! j) \<noteq> 4) [0..<MAX_CLIENTS])"
    and s: "sent (snd (snd ?r)) = sent world0 @ ?E"
    and l: "length ?E = length (notice_targets registry_full i 4)"
    and ev: "\<forall>k < length (notice_targets registry_full i 4).
           ev_result (?E ! k) = net_ok (length (sent world0) + k) (ev_socket (?E ! k))"
    and c: "(\<forall>e \<in> set ?E. ev_result e > 0) \<longrightarrow>
           active_count (fst (snd ?r)) = active_count registry_full - 1 \<and>
           client_count (fst (snd ?r)) = client_count registry_full - 1 \<and>
           fst (add_client (fst (snd ?r)) 54 (0, 0) (ascii ''zoe'') 0) = int i"
    by blast
  have i0: "i = 0" using i by (simp add: registry_full_slot user_slot_def)
  have pos: "\<forall>e \<in> set ?E. ev_result e > 0"
  proof
    fix e assume "e \<in> set ?E"
    then obtain k where k: "k < length ?E" and e: "e = ?E ! k"
      unfolding in_set_conv_nth by blast
    have "ev_result (?E ! k) = net_ok (length (sent world0) + k) (ev_socket (?E ! k))"
      using ev k l by simp
    then show "ev_result e > 0" by (simp add: e net_ok_def sizeof_chat_message_eq)
  qed
  have 0: "(0::nat) < MAX_CLIENTS" by (simp add: MAX_CLIENTS_def)
  have "filter (\<lambda>j. socket_fd (clients registry_full ! j) \<noteq> 4) [0..<MAX_CLIENTS] =
      filter (\<lambda>j. j \<noteq> 0) [0..<MAX_CLIENTS]"
    by (rule filter_cong [OF refl]) (simp add: registry_full_slot user_slot_def)
  also have "\<dots> = [1..<MAX_CLIENTS]"
    by (simp add: upt_conv_Cons [OF 0] filter_id_conv)
  finally have "notice_targets registry_full i 4 = [1..<MAX_CLIENTS]"
    using T by (simp add: i0 registry_full_slot [OF 0] user_slot_def)
  then have "length ?E = 49"
    using l by (simp add: MAX_CLIENTS_def)
  then have n: "length (sent (snd (snd ?r))) = 49"
    using s by (simp add: world0_def)
  show ?thesis
    using a f n c pos i0 by (simp add: registry_full_counts MAX_CLIENTS_def)
qed

theorem registry_capacity_cycle_counterexample:
  "server_context_ok registry_full \<and> running registry_full \<and>
   active_count registry_full = int MAX_CLIENTS \<and>
   client_count registry_full = int MAX_CLIENTS \<and>
   fst (remove_client (net_down 5) 0 registry_full world0 4) = 0 \<and>
   active (clients registry_full ! 0) \<and> active (clients registry_full ! 1) \<and>
   \<not> active (clients (fst (snd (remove_client (net_down 5) 0 registry_full world0 4))) ! 0) \<and>
   \<not> active (clients (fst (snd (remove_client (net_down 5) 0 registry_full world0 4))) ! 1)"
proof -
  let ?r = "remove_slot (net_down 5) 0 registry_full world0 4 0"
  have 0: "(0::nat) < MAX_CLIENTS" and 1: "(1::nat) < MAX_CLIENTS"
    by (simp_all add: MAX_CLIENTS_def)
  have s0: "socket_fd (clients registry_full ! 0) = 4"
    by (simp add: registry_full_slot [OF 0] user_slot_def)
  have eq: "?r = (fst ?r, fst (snd ?r), snd (snd ?r))" by simp
  note e = remove_slot_effect [OF registry_full_ok 0 s0 eq]
  have ne: "(1::nat) \<noteq> 0" by simp
  from e(6) [rule_format, OF 1 ne] obtain k where "clients (fst (snd ?r)) ! 1 =
       (if \<not> disconnect_notified (clients registry_full ! 0) \<and>
           active (clients registry_full ! 1) \<and>
           socket_fd (clients registry_full ! 1) \<noteq> 4 \<and>
           net_down 5 k (socket_fd (clients registry_full ! 1)) \<le> 0
        then (clients registry_full ! 1)\<lparr>active := False\<rparr> else clients registry_full ! 1)"
    by blast
  then have "\<not> active (clients (fst (snd ?r)) ! 1)"
    unfolding registry_full_slot [OF 0] registry_full_slot [OF 1]
    by (simp add: user_slot_def net_down_def)
  moreover have "active (clients registry_full ! 0)" "active (clients registry_full ! 1)"
    unfolding registry_full_slot [OF 0] registry_full_slot [OF 1]
    by (simp_all add: user_slot_def)
  ultimately show ?thesis
    using e(1,4) registry_full_ok registry_full_counts
    unfolding remove_client_registry_full by blast
qed

lemma small_registry_all:
  "(\<forall>i<MAX_CLIENTS. P ((a # b # replicate 48 free_slot) ! i)) \<longleftrightarrow> P a \<and> P b \<and> P free_slot"
proof
  assume h: "\<forall>i<MAX_CLIENTS. P ((a # b # replicate 48 free_slot) ! i)"
  have "(0::nat) < MAX_CLIENTS" "(1::nat) < MAX_CLIENTS" "(2::nat) < MAX_CLIENTS"
    by (simp_all add: MAX_CLIENTS_def)
  then have "P ((a # b # replicate 48 free_slot) ! 0)" "P ((a # b # replicate 48 free_slot) ! 1)"
    "P ((a # b # replicate 48 free_slot) ! 2)"
    using h by blast+
  then show "P a \<and> P b \<and> P free_slot" by (simp add: numeral_2_eq_2)
next
  assume h: "P a \<and> P b \<and> P free_slot"
  show "\<forall>i<MAX_CLIENTS. P ((a # b # replicate 48 free_slot) ! i)"
  proof (intro allI impI)
    fix i assume i: "i < MAX_CLIENTS"
    consider "i = 0" | "i = 1" | "2 \<le> i" by linarith
    then show "P ((a # b # replicate 48 free_slot) ! i)"
    proof cases
      case 1 then show ?thesis using h by simp
    next
      case 2 then show ?thesis using h by simp
    next
      case 3 then show ?thesis using h small_registry_tail [OF 3 i] by simp
    qed
  qed
qed

lemma broadcast_message_small:
  assumes "chat_message_ok m" and "clients ctx = a # b # replicate 48 free_slot"
  shows "broadcast_message net ctx w m s =
     (let tg = (if active a \<and> socket_fd a \<noteq> s then [0] else []) @
               (if active b \<and> socket_fd b \<noteq> s then [1] else []);
          fds = map (\<lambda>i. socket_fd (clients ctx ! i)) tg;
          rs = send_results net (length (sent w)) fds
      in (int (length (filter (\<lambda>r. r > 0) rs)),
          ctx\<lparr>clients := deactivate (zip tg rs) (clients ctx)\<rparr>,
          w\<lparr>sent := sent w @
                map (\<lambda>(fd, r). \<lparr>ev_socket = fd, ev_data = struct_bytes m, ev_result = r\<rparr>)
                  (zip fds rs)\<rparr>))"
  unfolding broadcast_message_closed_form [OF assms(1)] broadcast_targets_small [OF assms(2)] ..

lemma remove_client_absent:
  assumes "\<forall>i<MAX_CLIENTS. \<not> (active (clients ctx ! i) \<and> socket_fd (clients ctx ! i) = s)"
  shows "remove_client net now ctx w s = (if running ctx then - 1 else 0, ctx, w)"
proof -
  have "List.find (\<lambda>i. active (clients ctx ! i) \<and> socket_fd (clients ctx ! i) = s)
      [0..<MAX_CLIENTS] = None"
    using assms by (simp add: find_upt_None)
  then show ?thesis by (simp add: remove_client_def remove_loop_find)
qed

text \<open>
  Claim C2 at a state the server reaches. Alice is the only client; a chat message is
  broadcast and the send to her socket fails. Before the broadcast \<open>client_count\<close> is
  the number of active slots. After it the slot is inactive while \<open>client_count\<close> is
  still 1, and the \<open>remove_client\<close> that her thread then calls finds no slot, returns
  \<open>-1\<close> and leaves the counter as it is.
\<close>

theorem broadcast_message_breaks_count:
  "client_count registry_alice = 1 \<and> active_count registry_alice = 1 \<and>
   client_count (fst (snd (broadcast_message net_dead registry_alice world0
      (init_message MSG_CHAT (Some (ascii ''alice'')) (Some (ascii ''hi'')) 0) (- 1)))) = 1 \<and>
   active_count (fst (snd (broadcast_message net_dead registry_alice world0
      (init_message MSG_CHAT (Some (ascii ''alice'')) (Some (ascii ''hi'')) 0) (- 1)))) = 0 \<and>
   remove_client net_ok 0
     (fst (snd (broadcast_message net_dead registry_alice world0
        (init_message MSG_CHAT (Some (ascii ''alice'')) (Some (ascii ''hi'')) 0) (- 1))))
     world0 4 =
     (- 1,
      fst (snd (broadcast_message net_dead registry_alice world0
        (init_message MSG_CHAT (Some (ascii ''alice'')) (Some (ascii ''hi'')) 0) (- 1))),
      world0)"
proof -
  let ?m = "init_message MSG_CHAT (Some (ascii ''alice'')) (Some (ascii ''hi'')) 0"
  let ?b = "broadcast_message net_dead registry_alice world0 ?m (- 1)"
  let ?ctx' = "\<lparr>clients = alice_slot\<lparr>active := False\<rparr> # free_slot # replicate 48 free_slot,
      client_count = 1, server_socket = - 1, running = True\<rparr>"
  have c: "clients registry_alice = alice_slot # free_slot # replicate 48 free_slot"
    by (simp add: registry_alice_eq)
  have b: "fst (snd ?b) = ?ctx'"
    unfolding broadcast_message_small [OF init_message_ok c]
    by (simp add: alice_slot_def free_slot_def net_dead_def world0_def registry_alice_eq)
  have 1: "client_count registry_alice = 1" "active_count registry_alice = 1"
    by (simp_all add: registry_alice_eq active_count_def alice_slot_def free_slot_def)
  have 2: "client_count ?ctx' = 1" "active_count ?ctx' = 0"
    by (simp_all add: active_count_def alice_slot_def free_slot_def)
  let ?P = "\<lambda>c. \<not> (active c \<and> socket_fd c = 4)"
  have "?P (alice_slot\<lparr>active := False\<rparr>) \<and> ?P free_slot \<and> ?P free_slot"
    by (simp add: free_slot_def)
  then have "\<forall>i<MAX_CLIENTS.
      ?P ((alice_slot\<lparr>active := False\<rparr> # free_slot # replicate 48 free_slot) ! i)"
    by (rule small_registry_all [THEN iffD2])
  then have "\<forall>i<MAX_CLIENTS. \<not> (active (clients ?ctx' ! i) \<and> socket_fd (clients ?ctx' ! i) = 4)"
    by simp
  then have 3: "remove_client net_ok 0 ?ctx' world0 4 = (- 1, ?ctx', world0)"
    by (simp add: remove_client_absent)
  show ?thesis
    unfolding b using 1 2 3 by simp
qed

section \<open>Properties of the client thread\<close>

lemma take_strlen: "take (strlen u) u = c_str u"
  by (simp add: strlen_def c_str_def takeWhile_eq_take [symmetric])


lemma validate_username_c_str:
  "validate_username u =
     (if strlen u = 0 \<or> strlen u \<ge> USERNAME_SIZE then 0 else validate_chars (c_str u))"
  by (simp add: validate_username_def Let_def take_strlen)


lemma serialize_message_buffer:
  assumes "chat_message_ok m"
  shows "serialize_message m (replicate BUFFER_SIZE 0) =
     (int sizeof_chat_message, struct_bytes m @ drop sizeof_chat_message (replicate BUFFER_SIZE 0))"
proof -
  have "sizeof_chat_message \<le> BUFFER_SIZE"
    by (simp add: sizeof_chat_message_eq BUFFER_SIZE_def)
  then show ?thesis by (simp add: serialize_message_def)
qed

lemma send_message_to_client_eq:
  assumes "chat_message_ok m" and "fd \<ge> 0"
  shows "send_message_to_client net w fd m =
     (if net (length (sent w)) fd \<noteq> int sizeof_chat_message then - 1 else 0,
      w\<lparr>sent := sent w @
           [\<lparr>ev_socket = fd, ev_data = struct_bytes m,
             ev_result = net (length (sent w)) fd\<rparr>]\<rparr>)"
  using assms(2) length_struct_bytes [OF assms(1)]
  by (simp add: send_message_to_client_def serialize_message_buffer [OF assms(1)] send_def Let_def)


lemma c_str_init_message:
  "c_str (msg_username (init_message t (Some u) c now)) = take (USERNAME_SIZE - 1) (c_str u)"
  "c_str (msg_content (init_message t u' (Some x) now)) = take (MESSAGE_SIZE - 1) (c_str x)"
  by (simp_all add: init_message_def Let_def c_str_strncpy split: option.splits)

lemma msg_type_init_message [simp]: "msg_type (init_message t u c now) = t"
  by (simp add: init_message_def Let_def)

lemma deserialize_init_message:
  assumes "t \<in> {MSG_CONNECT, MSG_DISCONNECT, MSG_CHAT, MSG_NOTIFICATION, MSG_ERROR, MSG_KEEPALIVE}"
  shows "deserialize_message (struct_bytes (init_message t u c now)) = Some (init_message t u c now)"
proof -
  let ?m = "init_message t u c now"
  have "deserialize_message (struct_bytes ?m @ []) =
     Some (?m\<lparr>msg_username := (msg_username ?m)[USERNAME_SIZE - 1 := 0],
              msg_content := (msg_content ?m)[MESSAGE_SIZE - 1 := 0]\<rparr>)"
    using assms by (intro deserialize_struct_bytes init_message_ok) simp
  moreover have "(msg_username ?m)[USERNAME_SIZE - 1 := 0] = msg_username ?m"
    using init_message_terminated(1) [of t u c now]
      list_update_id [of "msg_username ?m" "USERNAME_SIZE - 1"] by simp
  moreover have "(msg_content ?m)[MESSAGE_SIZE - 1 := 0] = msg_content ?m"
    using init_message_terminated(2) [of t u c now]
      list_update_id [of "msg_content ?m" "MESSAGE_SIZE - 1"] by simp
  ultimately show ?thesis by simp
qed

lemma recv_buffer_frame:
  "recv_buffer (Received (struct_bytes (init_message t u c now))) =
     struct_bytes (init_message t u c now)"
  using length_struct_bytes [OF init_message_ok, of t u c now]
  by (simp add: sizeof_chat_message_eq BUFFER_SIZE_def)





lemma c_str_ascii_bob: "c_str (ascii ''bob'') = ascii ''bob''"
  by (simp add: c_str_def ascii_def)

lemma c_str_bob_slot: "c_str (username bob_slot) = ascii ''bob''"
proof -
  have "length (ascii ''bob'') \<le> USERNAME_SIZE - 1"
    by (simp add: ascii_def USERNAME_SIZE_def)
  then show ?thesis
    by (simp add: bob_slot_def c_str_strncpy c_str_ascii_bob)
qed




lemma c_str_idem [simp]: "c_str (c_str u) = c_str u"
  by (simp add: c_str_def)

lemma strncpy_c_str: "strncpy dst (c_str src) n = strncpy dst src n"
  by (simp add: strncpy_def)

lemma add_client_c_str: "add_client ctx s a (c_str u) t = add_client ctx s a u t"
  by (simp add: add_client_def strncpy_c_str Let_def)

lemma disconnect_text_c_str: "disconnect_text (c_str u) = disconnect_text u"
  by (simp add: disconnect_text_def snprintf_def)

lemma connect_text_c_str: "connect_text (c_str u) = connect_text u"
  by (simp add: connect_text_def snprintf_def)

lemma c_str_connect_name:
  "c_str (msg_username (init_message t (Some (ascii ''bob'')) c now)) = ascii ''bob''"
proof -
  have "length (ascii ''bob'') \<le> USERNAME_SIZE - 1"
    by (simp add: ascii_def USERNAME_SIZE_def)
  then show ?thesis by (simp add: c_str_init_message c_str_ascii_bob)
qed

lemma validate_bob:
  "validate_username (msg_username (init_message t (Some (ascii ''bob'')) c now)) = 1"
  by (simp add: validate_username_c_str strlen_def c_str_connect_name)
    (simp add: ascii_def USERNAME_SIZE_def username_char_ok_def)

lemma add_client_bob:
  "add_client registry_alice 5 (0, 0)
     (msg_username (init_message t (Some (ascii ''bob'')) c now)) 0 = (1, registry_pair)"
proof -
  have "add_client registry_alice 5 (0, 0)
      (msg_username (init_message t (Some (ascii ''bob'')) c now)) 0 =
    add_client registry_alice 5 (0, 0)
      (c_str (msg_username (init_message t (Some (ascii ''bob'')) c now))) 0"
    by (simp only: add_client_c_str)
  also have "\<dots> = add_client registry_alice 5 (0, 0) (c_str (ascii ''bob'')) 0"
    by (simp only: c_str_connect_name c_str_ascii_bob)
  also have "\<dots> = (1, registry_pair)"
    by (simp only: add_client_c_str add_client_registry_alice)
  finally show ?thesis .
qed

lemma find_client_registry_pair: "find_client registry_pair 5 = Some 1"
proof -
  have "(1::nat) < MAX_CLIENTS" by (simp add: MAX_CLIENTS_def)
  then show ?thesis
    unfolding find_client_def find_client_loop_find find_upt_Some
    by (simp add: registry_pair_eq alice_slot_def bob_slot_def)
qed

section \<open>A session that the client ends itself\<close>

lemma message_type_distinct [simp]:
  "MSG_DISCONNECT \<noteq> MSG_CHAT" "MSG_CONNECT \<noteq> MSG_CHAT" "MSG_CONNECT \<noteq> MSG_DISCONNECT"
  by (simp_all add: MSG_CONNECT_def MSG_DISCONNECT_def MSG_CHAT_def)

lemma sizeof_chat_message_positive [simp]: "0 < sizeof_chat_message"
  by (simp add: sizeof_chat_message_eq)

lemma net_ok_simps [simp]: "net_ok k fd = int sizeof_chat_message"
  by (simp add: net_ok_def)

lemma c_str_local_copy:
  "c_str ((strncpy (replicate USERNAME_SIZE 0) (username bob_slot) (USERNAME_SIZE - 1))
            [USERNAME_SIZE - 1 := 0]) = c_str (ascii ''bob'')"
proof -
  have "length (ascii ''bob'') \<le> USERNAME_SIZE - 1"
    by (simp add: ascii_def USERNAME_SIZE_def)
  then show ?thesis by (simp add: c_str_strncpy c_str_bob_slot c_str_ascii_bob)
qed

lemma disconnect_text_bob:
  "disconnect_text (username bob_slot) = disconnect_text (ascii ''bob'')"
  "disconnect_text ((strncpy (replicate USERNAME_SIZE 0) (username bob_slot) (USERNAME_SIZE - 1))
            [USERNAME_SIZE - 1 := 0]) = disconnect_text (ascii ''bob'')"
proof -
  have "disconnect_text (username bob_slot) = disconnect_text (c_str (username bob_slot))"
    by (simp only: disconnect_text_c_str)
  also have "\<dots> = disconnect_text (c_str (ascii ''bob''))"
    by (simp only: c_str_bob_slot c_str_ascii_bob)
  also have "\<dots> = disconnect_text (ascii ''bob'')"
    by (simp only: disconnect_text_c_str)
  finally show "disconnect_text (username bob_slot) = disconnect_text (ascii ''bob'')" .
  let ?copy = "(strncpy (replicate USERNAME_SIZE 0) (username bob_slot) (USERNAME_SIZE - 1))
            [USERNAME_SIZE - 1 := 0]"
  have "disconnect_text ?copy = disconnect_text (c_str ?copy)"
    by (simp only: disconnect_text_c_str)
  also have "\<dots> = disconnect_text (c_str (ascii ''bob''))"
    by (simp only: c_str_local_copy)
  also have "\<dots> = disconnect_text (ascii ''bob'')"
    by (simp only: disconnect_text_c_str)
  finally show "disconnect_text ?copy = disconnect_text (ascii ''bob'')" .
qed

lemma broadcast_one_target:
  assumes "chat_message_ok m" and "clients ctx = a # b # replicate 48 free_slot"
    and "active a" and "socket_fd a \<noteq> s" and "\<not> (active b \<and> socket_fd b \<noteq> s)"
    and "net (length (sent w)) (socket_fd a) > 0"
  shows "broadcast_message net ctx w m s =
     (1, ctx,
      w\<lparr>sent := sent w @
           [\<lparr>ev_socket = socket_fd a, ev_data = struct_bytes m,
             ev_result = net (length (sent w)) (socket_fd a)\<rparr>]\<rparr>)"
proof -
  have a: "(if active a \<and> socket_fd a \<noteq> s then [0::nat] else []) = [0]"
    using assms(3,4) by simp
  have b: "(if active b \<and> socket_fd b \<noteq> s then [1::nat] else []) = []"
    using assms(5) by simp
  show ?thesis
    unfolding broadcast_message_small [OF assms(1,2)] a b
    using assms(6) by (simp add: assms(2))
qed

lemma alice_slot_simps [simp]: "active alice_slot" "socket_fd alice_slot = 4"
  by (simp_all add: alice_slot_def)

lemma bob_slot_simps [simp]:
  "active bob_slot" "socket_fd bob_slot = 5" "\<not> disconnect_notified bob_slot"
  by (simp_all add: bob_slot_def)

lemma notify_connected_bob:
  "notify_user_connected net_ok 0 bob_registered w u 5 =
     (bob_registered,
      w\<lparr>sent := sent w @
           [\<lparr>ev_socket = 4,
             ev_data = struct_bytes (init_message MSG_NOTIFICATION (Some (ascii ''Sistema''))
                                       (Some (connect_text u)) 0),
             ev_result = int sizeof_chat_message\<rparr>]\<rparr>)"
proof -
  have c: "clients bob_registered = alice_slot # bob_slot\<lparr>thread_id := 7\<rparr> # replicate 48 free_slot"
    by (simp add: bob_registered_def)
  have "broadcast_message net_ok bob_registered w
      (init_message MSG_NOTIFICATION (Some (ascii ''Sistema'')) (Some (connect_text u)) 0) 5 =
    (1, bob_registered,
     w\<lparr>sent := sent w @
          [\<lparr>ev_socket = socket_fd alice_slot,
            ev_data = struct_bytes (init_message MSG_NOTIFICATION (Some (ascii ''Sistema''))
                                       (Some (connect_text u)) 0),
            ev_result = net_ok (length (sent w)) (socket_fd alice_slot)\<rparr>]\<rparr>)"
    by (rule broadcast_one_target [OF init_message_ok c]) simp_all
  then show ?thesis
    by (simp add: notify_user_connected_def)
qed

lemma process_disconnect_bob:
  assumes "msg_type msg = MSG_DISCONNECT"
  shows "process_client_message net_ok 0 bob_registered w 1 msg =
     (- 1, bob_gone,
      w\<lparr>sent := sent w @
           [\<lparr>ev_socket = 4, ev_data = disconnect_notice,
             ev_result = int sizeof_chat_message\<rparr>]\<rparr>)"
proof -
  define ctx1 where "ctx1 = bob_registered\<lparr>clients :=
      (clients bob_registered)[1 := (clients bob_registered ! 1)\<lparr>disconnect_notified := True\<rparr>]\<rparr>"
  have c: "clients ctx1 = alice_slot # bob_slot\<lparr>thread_id := 7, disconnect_notified := True\<rparr>
      # replicate 48 free_slot"
    by (simp add: ctx1_def bob_registered_def)
  have u: "username (clients ctx1 ! 1) = username bob_slot"
    and s: "socket_fd (clients ctx1 ! 1) = 5"
    by (simp_all add: c)
  have b: "broadcast_message net_ok ctx1 w
      (init_message MSG_NOTIFICATION (Some (ascii ''Sistema''))
         (Some (disconnect_text (ascii ''bob''))) 0) 5 =
    (1, ctx1,
     w\<lparr>sent := sent w @
          [\<lparr>ev_socket = socket_fd alice_slot,
            ev_data = struct_bytes (init_message MSG_NOTIFICATION (Some (ascii ''Sistema''))
                                       (Some (disconnect_text (ascii ''bob''))) 0),
            ev_result = net_ok (length (sent w)) (socket_fd alice_slot)\<rparr>]\<rparr>)"
    by (rule broadcast_one_target [OF init_message_ok c]) simp_all
  have g: "ctx1\<lparr>clients := (clients ctx1)[1 := (clients ctx1 ! 1)\<lparr>active := False\<rparr>]\<rparr> = bob_gone"
    by (simp add: c) (simp add: ctx1_def bob_registered_def bob_gone_def)
  have "process_client_message net_ok 0 bob_registered w 1 msg =
     (let disconnect_notification =
            init_message MSG_NOTIFICATION (Some (ascii ''Sistema''))
              (Some (disconnect_text (username (clients ctx1 ! 1)))) 0;
          (n, ctx2, w') =
            broadcast_message net_ok ctx1 w disconnect_notification (socket_fd (clients ctx1 ! 1))
      in (- 1, ctx2\<lparr>clients := (clients ctx2)[1 := (clients ctx2 ! 1)\<lparr>active := False\<rparr>]\<rparr>, w'))"
    using assms by (simp add: process_client_message_def ctx1_def Let_def)
  also have "\<dots> = (- 1, bob_gone,
      w\<lparr>sent := sent w @
           [\<lparr>ev_socket = 4, ev_data = disconnect_notice,
             ev_result = int sizeof_chat_message\<rparr>]\<rparr>)"
    unfolding u s disconnect_text_bob Let_def b
    by (simp add: g [unfolded One_nat_def] disconnect_notice_def)
  finally show ?thesis .
qed

lemma disconnect_cleanup_bob:
  "handle_client_disconnect net_ok 0 bob_gone w 1 =
     (bob_gone,
      w\<lparr>sent := sent w @
           [\<lparr>ev_socket = 4, ev_data = disconnect_notice,
             ev_result = int sizeof_chat_message\<rparr>]\<rparr>)"
proof -
  have c: "clients bob_gone = alice_slot
        # bob_slot\<lparr>thread_id := 7, disconnect_notified := True, active := False\<rparr>
        # replicate 48 free_slot"
    by (simp add: bob_gone_def)
  have u: "username (clients bob_gone ! 1) = username bob_slot"
    and s: "socket_fd (clients bob_gone ! 1) = 5"
    by (simp_all add: c)
  have run: "running bob_gone" by (simp add: bob_gone_def)
  let ?P = "\<lambda>c. \<not> (active c \<and> socket_fd c = 5)"
  have "?P alice_slot \<and> ?P (bob_slot\<lparr>thread_id := 7, disconnect_notified := True, active := False\<rparr>)
      \<and> ?P free_slot"
    by (simp add: free_slot_def)
  then have "\<forall>i<MAX_CLIENTS. ?P ((alice_slot
        # bob_slot\<lparr>thread_id := 7, disconnect_notified := True, active := False\<rparr>
        # replicate 48 free_slot) ! i)"
    by (rule small_registry_all [THEN iffD2])
  then have "\<forall>i<MAX_CLIENTS. \<not> (active (clients bob_gone ! i) \<and> socket_fd (clients bob_gone ! i) = 5)"
    unfolding c .
  then have r: "remove_client net_ok 0 bob_gone w 5 = (- 1, bob_gone, w)"
    using run by (simp add: remove_client_absent)
  have b: "broadcast_message net_ok bob_gone w
      (init_message MSG_NOTIFICATION (Some (ascii ''Sistema''))
         (Some (disconnect_text (ascii ''bob''))) 0) (- 1) =
    (1, bob_gone,
     w\<lparr>sent := sent w @
          [\<lparr>ev_socket = socket_fd alice_slot,
            ev_data = struct_bytes (init_message MSG_NOTIFICATION (Some (ascii ''Sistema''))
                                       (Some (disconnect_text (ascii ''bob''))) 0),
            ev_result = net_ok (length (sent w)) (socket_fd alice_slot)\<rparr>]\<rparr>)"
    by (rule broadcast_one_target [OF init_message_ok c]) simp_all
  show ?thesis
    unfolding handle_client_disconnect_def Let_def u s r notify_user_disconnected_def
      disconnect_text_bob
    by (simp add: b disconnect_notice_def)
qed

lemma recv_count_frame:
  "recv_count (Received (struct_bytes (init_message t u c now))) = int sizeof_chat_message"
  using length_struct_bytes [OF init_message_ok, of t u c now]
  by (simp add: sizeof_chat_message_eq BUFFER_SIZE_def)

lemma bob_registered_eq:
  "registry_pair\<lparr>clients := (clients registry_pair)[1 := (clients registry_pair ! 1)\<lparr>thread_id := 7\<rparr>]\<rparr>
     = bob_registered"
  by (simp add: registry_pair_eq bob_registered_def)

lemma bob_registered_simps [simp]:
  "running bob_registered" "active (clients bob_registered ! 1)"
  by (simp_all add: bob_registered_def)

lemma bob_gone_counts:
  "client_count bob_gone = 2" "active_count bob_gone = 1"
  by (simp_all add: bob_gone_def active_count_def free_slot_def)

lemma bob_session_run:
  "handle_client_thread net_ok 0 7 registry_alice world0 5 (0, 0) bob_session =
     (bob_gone,
      \<lparr>sent =
         [\<lparr>ev_socket = 5,
           ev_data = struct_bytes
             (init_message MSG_NOTIFICATION (Some (ascii ''Sistema''))
                (Some (ascii ''Conectado al chat. '' @ [0xC2, 0xA1] @ ascii ''Bienvenido!'')) 0),
           ev_result = int sizeof_chat_message\<rparr>,
          \<lparr>ev_socket = 4,
           ev_data = struct_bytes
             (init_message MSG_NOTIFICATION (Some (ascii ''Sistema''))
                (Some (connect_text
                   (msg_username (init_message MSG_CONNECT (Some (ascii ''bob'')) (Some []) 0))))
                0),
           ev_result = int sizeof_chat_message\<rparr>,
          \<lparr>ev_socket = 4, ev_data = disconnect_notice, ev_result = int sizeof_chat_message\<rparr>,
          \<lparr>ev_socket = 4, ev_data = disconnect_notice, ev_result = int sizeof_chat_message\<rparr>],
       closed = []\<rparr>)"
proof -
  have e: "MSG_CONNECT \<in>
      {MSG_CONNECT, MSG_DISCONNECT, MSG_CHAT, MSG_NOTIFICATION, MSG_ERROR, MSG_KEEPALIVE}"
    "MSG_DISCONNECT \<in>
      {MSG_CONNECT, MSG_DISCONNECT, MSG_CHAT, MSG_NOTIFICATION, MSG_ERROR, MSG_KEEPALIVE}"
    by simp_all
  have s: "(5::int) \<ge> 0" by simp
  have z: "sizeof_chat_message \<noteq> 0" by (simp add: sizeof_chat_message_eq)
  show ?thesis
    unfolding handle_client_thread_def bob_session_def
    by (simp add: Let_def recv_count_frame recv_buffer_frame deserialize_init_message [OF e(1)]
        deserialize_init_message [OF e(2)] validate_bob add_client_bob
        find_client_registry_pair bob_registered_eq [unfolded One_nat_def]
        send_message_to_client_eq [OF init_message_ok s] notify_connected_bob
        process_disconnect_bob [unfolded One_nat_def]
        disconnect_cleanup_bob [unfolded One_nat_def]
        bob_registered_simps [unfolded One_nat_def] world0_def z
        del: recv_count.simps recv_buffer.simps)
qed

text \<open>
  Claim C1 at a session the server can have. Alice is connected on descriptor 4. Bob
  connects on descriptor 5 and then sends DISCONNECT; every send succeeds. His thread
  makes four sends: the welcome to bob, the notice to alice that bob has connected, and
  then the notice that bob has left to alice twice, once from
  \<open>process_client_message\<close>, which sets \<open>disconnect_notified\<close>, and once more from
  \<open>notify_user_disconnected\<close>, which \<open>handle_client_disconnect\<close> calls without
  looking at the flag. The thread leaves bob's slot inactive with \<open>client_count\<close> still
  2, and closes nothing.
\<close>

theorem disconnect_notification_sent_twice:
  "map ev_socket
     (sent (snd (handle_client_thread net_ok 0 7 registry_alice world0 5 (0, 0) bob_session)))
     = [5, 4, 4, 4] \<and>
   map ev_data
     (drop 2 (sent (snd (handle_client_thread net_ok 0 7 registry_alice world0 5 (0, 0)
                           bob_session))))
     = [disconnect_notice, disconnect_notice] \<and>
   disconnect_notified
     (clients (fst (handle_client_thread net_ok 0 7 registry_alice world0 5 (0, 0) bob_session))
        ! 1) \<and>
   \<not> active
     (clients (fst (handle_client_thread net_ok 0 7 registry_alice world0 5 (0, 0) bob_session))
        ! 1) \<and>
   client_count (fst (handle_client_thread net_ok 0 7 registry_alice world0 5 (0, 0) bob_session))
     = 2 \<and>
   active_count (fst (handle_client_thread net_ok 0 7 registry_alice world0 5 (0, 0) bob_session))
     = 1 \<and>
   closed (snd (handle_client_thread net_ok 0 7 registry_alice world0 5 (0, 0) bob_session)) = []"
  unfolding bob_session_run
  by (simp add: bob_gone_counts) (simp add: bob_gone_def)

section \<open>A sender field with no terminator\<close>











lemma long_slot_simps [simp]:
  "active long_slot" "socket_fd long_slot = 5" "\<not> disconnect_notified long_slot"
  by (simp_all add: long_slot_def)












end
